theory Spec2Isabelle
  imports Complex_Main
begin

section \<open>The study guide generator front end (static/app.js)\<close>

text \<open>
  The script is event driven. Every handler of the script runs to completion, or to its next
  \<^verbatim>\<open>await\<close>, before another one starts, so the page is modelled as a state
  record and every handler as a function on it. An \<^verbatim>\<open>async\<close> function is cut at
  its \<^verbatim>\<open>await\<close>: the part before it sends the request and records the
  suspended call, the part after it (named \<open>..._resume\<close>) is run by the event that settles
  the request. \<^verbatim>\<open>await fetch(...)\<close> and \<^verbatim>\<open>await response.json()\<close>
  are settled by one event, since the script changes nothing between the two.

  Left out of the model: console output, the pixel position of the floating button and the
  time slider's label, none of which any other part of the script reads. The elements that
  the script looks up by id are those of the page template and are taken to exist, and
  the Markdown library is taken to be loaded. The browser's validation of the form's
  required fields is not modelled: a submission may carry any values. Strings are lists of
  characters below 256.
\<close>

subsection \<open>Values exchanged with the server\<close>

text \<open>\<^verbatim>\<open>document.getElementById('maxSteps')?.value || 1\<close> is the number 1 or a
  non-empty string.\<close>

datatype js_value = JNum int | JStr string

record form_data =
  subject :: string
  currentLevel :: string
  timeAvailable :: string
  learningStyle :: string
  goal :: string
  maxSteps :: js_value

text \<open>The JSON bodies: the form data with \<^verbatim>\<open>step\<close> and
  \<^verbatim>\<open>previousResponses\<close>, or \<^verbatim>\<open>component\<close> and
  \<^verbatim>\<open>subject\<close>, in this order.\<close>

datatype body =
    GenerateBody form_data nat "string list"
  | DetailsBody string string

record request =
  endpoint :: string
  http_method :: string
  content_type :: string
  body :: body

text \<open>What a \<^verbatim>\<open>fetch\<close> followed by \<^verbatim>\<open>response.json()\<close> can come to:
  the fetch promise rejects (a network error) with a message, or a response arrives with a
  status and a body that is not JSON (parsing rejects with a message) or is a JSON object,
  of which the script reads the fields \<^verbatim>\<open>error\<close> and \<^verbatim>\<open>response\<close>
  (\<open>None\<close> when absent).\<close>

datatype json_body = NotJson string | Json "string option" "string option"

datatype fetch_outcome = Rejected string | Response nat json_body

definition response_ok :: "nat \<Rightarrow> bool" where
  "response_ok status = (200 \<le> status \<and> status \<le> 299)"

definition API_GENERATE :: string where
  "API_GENERATE = ''/generate''"

definition API_COMPONENT_DETAILS :: string where
  "API_COMPONENT_DETAILS = ''/get_component_details''"

subsection \<open>Document content\<close>

text \<open>The markup the script writes: nothing yet, a \<^verbatim>\<open>div.loading-text\<close> with a
  text, a \<^verbatim>\<open>div.text-red-600\<close> with a text, or the output of
  \<^verbatim>\<open>marked.parse\<close> on a text.\<close>

datatype html = NoContent | LoadingDiv string | RedDiv string | Markdown string

text \<open>\<^verbatim>\<open>marked.parse\<close> throws on \<^verbatim>\<open>undefined\<close>; the library
  appends a line to the message of every error it throws.\<close>

definition marked_undefined :: string where
  "marked_undefined =
     ''marked(): input parameter is undefined or null'' @ [CHR 0x0A] @
     ''Please report this to https://github.com/markedjs/marked.''"

definition marked_parse :: "string option \<Rightarrow> string + html" where
  "marked_parse content = (case content of None \<Rightarrow> Inl marked_undefined | Some s \<Rightarrow> Inr (Markdown s))"

record card =
  data_step :: nat
  loading_bar :: bool
  loading_text :: bool
  step_content :: html

record button =
  display_block :: bool
  click_handlers :: nat

text \<open>A suspended call of \<^verbatim>\<open>handleFormSubmit\<close>: its locals.\<close>

record run =
  run_form :: form_data
  run_step :: nat
  run_card :: nat

text \<open>Step cards and floating buttons are objects: they live in \<open>cards\<close> and
  \<open>buttons\<close> under their index, and \<open>results\<close> and \<open>body_buttons\<close> list the
  indices of those attached to \<^verbatim>\<open>#results\<close> and to \<^verbatim>\<open>document.body\<close>.
  \<open>requests\<close> is every request sent so far; a request is known by its index, and
  \<open>gen_pending\<close> and \<open>exp_pending\<close> hold those not settled yet.\<close>

record state =
  ui_maxSteps :: js_value
  cards :: "card list"
  results :: "nat list"
  modal_hidden :: bool
  modal_loading_class :: bool
  modalTitle :: string
  modalContent :: html
  isModalLoading :: bool
  previousResponses :: "string list"
  floatingButton :: "nat option"
  currentSelection :: string
  currentSubject :: string
  buttons :: "button list"
  body_buttons :: "nat list"
  requests :: "request list"
  gen_pending :: "(nat \<times> run) list"
  exp_pending :: "nat list"

subsection \<open>UIState\<close>

definition setModalLoading :: "bool \<Rightarrow> state \<Rightarrow> state" where
  "setModalLoading loading st = st\<lparr>isModalLoading := loading, modal_loading_class := loading\<rparr>"

definition createFloatingButton :: "state \<Rightarrow> nat \<times> state" where
  "createFloatingButton st =
     (case floatingButton st of
        Some b \<Rightarrow> (b, st)
      | None \<Rightarrow>
          (let b = length (buttons st)
           in (b, st\<lparr>floatingButton := Some b,
                     buttons := buttons st @ [\<lparr>display_block = False, click_handlers = 0\<rparr>],
                     body_buttons := body_buttons st @ [b]\<rparr>)))"

text \<open>\<^verbatim>\<open>document.body.removeChild\<close> throws when the node is not a child of the
  body; every caller ends with this call, so the throw leaves the state as it is.\<close>

definition removeFloatingButton :: "state \<Rightarrow> state" where
  "removeFloatingButton st =
     (case floatingButton st of
        None \<Rightarrow> st
      | Some b \<Rightarrow>
          (if b \<in> set (body_buttons st)
           then st\<lparr>body_buttons := removeAll b (body_buttons st), floatingButton := None\<rparr>
           else st))"

subsection \<open>UIComponents\<close>

definition createStepCard :: "nat \<Rightarrow> card" where
  "createStepCard stepNumber =
     \<lparr>data_step = stepNumber, loading_bar = True, loading_text = True, step_content = NoContent\<rparr>"

text \<open>The indicators are removed before \<^verbatim>\<open>marked.parse\<close> can throw; the result
  is the card and the message thrown, if any. A card is updated once at most, by the call
  that created it, so the two indicators are there to be removed.\<close>

definition updateStepCard :: "card \<Rightarrow> string option \<Rightarrow> card \<times> string option" where
  "updateStepCard c content =
     (let c1 = c\<lparr>loading_bar := False, loading_text := False\<rparr>
      in case marked_parse content of
           Inl msg \<Rightarrow> (c1, Some msg)
         | Inr h \<Rightarrow> (c1\<lparr>step_content := h\<rparr>, None))"

definition showError :: "card \<Rightarrow> string \<Rightarrow> card" where
  "showError stepCard err = stepCard\<lparr>step_content := RedDiv (''Error generating content: '' @ err)\<rparr>"

subsection \<open>SelectionHandler\<close>

text \<open>A node of the document as \<^verbatim>\<open>findStepCard\<close> sees it: whether it is a text
  node, its own class list (\<open>None\<close> for a node without one, such as the document), and
  the class lists of its \<^verbatim>\<open>parentElement\<close> chain, nearest first.\<close>

datatype dom_node = DomNode bool "string list option" "string list list"

text \<open>What \<^verbatim>\<open>window.getSelection()\<close> returns when a handler reads it:
  \<^verbatim>\<open>toString()\<close>, \<^verbatim>\<open>rangeCount\<close>, and of the first range the
  common ancestor container and the size of the bounding rectangle.\<close>

record selection =
  sel_text :: string
  rangeCount :: nat
  container :: dom_node
  rect_width :: rat
  rect_height :: rat

definition is_space :: "char \<Rightarrow> bool" where
  "is_space c = (c \<in> set [CHR 0x09, CHR 0x0A, CHR 0x0B, CHR 0x0C, CHR 0x0D, CHR 0x20, CHR 0xA0])"

definition trim :: "string \<Rightarrow> string" where
  "trim s = rev (dropWhile is_space (rev (dropWhile is_space s)))"

text \<open>The \<^verbatim>\<open>while\<close> loop of \<^verbatim>\<open>findStepCard\<close> over the parent chain; the
  result is how many levels above the node the step card is.\<close>

fun climb :: "string list list \<Rightarrow> nat \<Rightarrow> nat option" where
  "climb [] d = None"
| "climb (cs # up) d = (if ''step-card'' \<in> set cs then Some d else climb up (Suc d))"

fun findStepCard :: "dom_node \<Rightarrow> nat option" where
  "findStepCard (DomNode is_text cls up) =
     (if is_text then climb up 1
      else case cls of
             None \<Rightarrow> climb up 1
           | Some cs \<Rightarrow> if ''step-card'' \<in> set cs then Some 0 else climb up 1)"

definition handleSelectionChange :: "selection \<Rightarrow> state \<Rightarrow> state" where
  "handleSelectionChange sel st =
     (let selectedText = trim (sel_text sel)
      in if selectedText = [] then removeFloatingButton st
         else if rangeCount sel = 0 then st
         else case findStepCard (container sel) of
                None \<Rightarrow> removeFloatingButton st
              | Some _ \<Rightarrow> st\<lparr>currentSelection := selectedText\<rparr>)"

definition details_request :: "string \<Rightarrow> string \<Rightarrow> request" where
  "details_request component subj =
     \<lparr>endpoint = ''/get_component_details'', http_method = ''POST'',
      content_type = ''application/json'', body = DetailsBody component subj\<rparr>"

text \<open>\<^verbatim>\<open>handleExplanationRequest\<close> up to its \<^verbatim>\<open>await fetch\<close>.\<close>

definition handleExplanationRequest :: "state \<Rightarrow> state" where
  "handleExplanationRequest st =
     (if currentSubject st = [] \<or> currentSelection st = [] then st
      else if isModalLoading st then st
      else
        (let selectedText = currentSelection st;
             st1 = st\<lparr>modalTitle := selectedText,
                      modalContent := LoadingDiv ''Loading detailed explanation...''\<rparr>;
             st2 = setModalLoading True st1;
             st3 = st2\<lparr>modal_hidden := False\<rparr>
         in st3\<lparr>requests := requests st3 @ [details_request selectedText (currentSubject st3)],
                exp_pending := exp_pending st3 @ [length (requests st3)]\<rparr>))"

fun show_nat :: "nat \<Rightarrow> string" where
  "show_nat n =
     (if n < 10 then [char_of (48 + n)] else show_nat (n div 10) @ [char_of (48 + n mod 10)])"

text \<open>The \<^verbatim>\<open>try\<close> block after the fetch: the markup to show, or the message of
  what was thrown.\<close>

definition explanation_result :: "fetch_outcome \<Rightarrow> string + html" where
  "explanation_result outcome =
     (case outcome of
        Rejected msg \<Rightarrow> Inl msg
      | Response status b \<Rightarrow>
          (if \<not> response_ok status then Inl (''HTTP error! status: '' @ show_nat status)
           else (case b of
                   NotJson msg \<Rightarrow> Inl msg
                 | Json err resp \<Rightarrow> marked_parse resp)))"

text \<open>\<^verbatim>\<open>handleExplanationRequest\<close> from the settling of its fetch on: the rest of
  \<^verbatim>\<open>try\<close>, then \<^verbatim>\<open>catch\<close> and \<^verbatim>\<open>finally\<close>.\<close>

definition handleExplanationRequest_resume :: "nat \<Rightarrow> fetch_outcome \<Rightarrow> state \<Rightarrow> state" where
  "handleExplanationRequest_resume rid outcome st =
     (if rid \<notin> set (exp_pending st) then st
      else
        (let st0 = st\<lparr>exp_pending := removeAll rid (exp_pending st)\<rparr>;
             st1 = (case explanation_result outcome of
                      Inr h \<Rightarrow> st0\<lparr>modalContent := h\<rparr>
                    | Inl msg \<Rightarrow> st0\<lparr>modalContent := RedDiv (''Error loading content: '' @ msg)\<rparr>)
         in removeFloatingButton (setModalLoading False st1)))"

text \<open>The floating button is taken from \<^verbatim>\<open>createFloatingButton\<close>, a clone of it
  (same style, no listeners) takes its place in the body, and the button itself is put back
  as the tracked one, appended to the body, shown, and given one more once-only click
  listener.\<close>

definition updateFloatingButtonPosition :: "selection \<Rightarrow> state \<Rightarrow> state" where
  "updateFloatingButtonPosition sel st =
     (if currentSelection st = [] then st
      else if rangeCount sel = 0 then st
      else case findStepCard (container sel) of
             None \<Rightarrow> removeFloatingButton st
           | Some _ \<Rightarrow>
               if rect_width sel = 0 \<or> rect_height sel = 0 then st
               else
                 (let (b, st1) = createFloatingButton st;
                      clone = length (buttons st1);
                      st2 = st1\<lparr>buttons := buttons st1 @ [(buttons st1 ! b)\<lparr>click_handlers := 0\<rparr>],
                                body_buttons := map (\<lambda>x. if x = b then clone else x) (body_buttons st1)\<rparr>;
                      st3 = st2\<lparr>floatingButton := Some b,
                                body_buttons := removeAll b (body_buttons st2) @ [b]\<rparr>;
                      old = buttons st3 ! b
                  in st3\<lparr>buttons := (buttons st3)
                           [b := old\<lparr>display_block := True, click_handlers := Suc (click_handlers old)\<rparr>]\<rparr>))"

text \<open>\<^verbatim>\<open>this.state.floatingButton && this.state.floatingButton.contains(e.target)\<close>;
  the target of a mouse event is given as the floating-button element it lies in, if any.\<close>

definition button_contains :: "state \<Rightarrow> nat option \<Rightarrow> bool" where
  "button_contains st target = (floatingButton st \<noteq> None \<and> target = floatingButton st)"

definition on_mouseup :: "nat option \<Rightarrow> selection \<Rightarrow> state \<Rightarrow> state" where
  "on_mouseup target sel st =
     (if button_contains st target then st
      else if trim (sel_text sel) \<noteq> [] then updateFloatingButtonPosition sel st
      else st)"

text \<open>The two \<^verbatim>\<open>mousedown\<close> listeners, in the order they were added.\<close>

definition on_mousedown :: "nat option \<Rightarrow> state \<Rightarrow> state" where
  "on_mousedown target st =
     (let st1 = (if button_contains st target then st else removeFloatingButton st)
      in if floatingButton st1 \<noteq> None \<and> \<not> button_contains st1 target
         then removeFloatingButton st1 else st1)"

text \<open>A click on an attached floating-button element runs its once-only listeners, each
  of which calls \<^verbatim>\<open>handleExplanationRequest\<close> and is gone afterwards.\<close>

definition on_button_click :: "nat \<Rightarrow> state \<Rightarrow> state" where
  "on_button_click b st =
     (if b \<in> set (body_buttons st) \<and> b < length (buttons st)
      then (let n = click_handlers (buttons st ! b);
                st1 = st\<lparr>buttons := (buttons st)[b := (buttons st ! b)\<lparr>click_handlers := 0\<rparr>]\<rparr>
            in (handleExplanationRequest ^^ n) st1)
      else st)"

subsection \<open>APIService\<close>

definition generate_request :: "form_data \<Rightarrow> nat \<Rightarrow> string list \<Rightarrow> request" where
  "generate_request formData step prev =
     \<lparr>endpoint = API_GENERATE, http_method = ''POST'',
      content_type = ''application/json'', body = GenerateBody formData step prev\<rparr>"

text \<open>\<^verbatim>\<open>generateStep\<close> after its fetch: the body is parsed before the status is
  looked at, and \<^verbatim>\<open>data.error || 'Network response was not ok'\<close> is the message
  of a response that is not ok. The result is the message thrown or the
  \<^verbatim>\<open>response\<close> field of the data.\<close>

definition generateStep_result :: "fetch_outcome \<Rightarrow> string + string option" where
  "generateStep_result outcome =
     (case outcome of
        Rejected msg \<Rightarrow> Inl msg
      | Response status b \<Rightarrow>
          (case b of
             NotJson msg \<Rightarrow> Inl msg
           | Json err resp \<Rightarrow>
               (if \<not> response_ok status
                then Inl (case err of
                            None \<Rightarrow> ''Network response was not ok''
                          | Some e \<Rightarrow> if e = [] then ''Network response was not ok'' else e)
                else Inr resp)))"

text \<open>\<^verbatim>\<open>getComponentDetails\<close> has no caller in the script; the request it would
  send is the one \<^verbatim>\<open>handleExplanationRequest\<close> builds by hand.\<close>

definition getComponentDetails_request :: "string \<Rightarrow> string \<Rightarrow> request" where
  "getComponentDetails_request component subj =
     \<lparr>endpoint = API_COMPONENT_DETAILS, http_method = ''POST'',
      content_type = ''application/json'', body = DetailsBody component subj\<rparr>"

subsection \<open>StudyGuideGenerator\<close>

text \<open>\<^verbatim>\<open>step < formData.maxSteps\<close>: between numbers it is the order of the
  numbers; against a string the engine converts the string to a number first, and that
  comparison is the parameter \<open>lt\<close> of the model.\<close>

definition js_lt :: "(nat \<Rightarrow> string \<Rightarrow> bool) \<Rightarrow> nat \<Rightarrow> js_value \<Rightarrow> bool" where
  "js_lt lt step v = (case v of JNum n \<Rightarrow> int step < n | JStr s \<Rightarrow> lt step s)"

text \<open>One turn of the \<^verbatim>\<open>for\<close> loop from its test up to the
  \<^verbatim>\<open>await\<close>: the card is created and appended, the request is sent with the
  responses collected so far, and the call is suspended. When the test fails the loop, and
  with it \<^verbatim>\<open>handleFormSubmit\<close>, ends.\<close>

definition enter_step :: "(nat \<Rightarrow> string \<Rightarrow> bool) \<Rightarrow> form_data \<Rightarrow> nat \<Rightarrow> state \<Rightarrow> state" where
  "enter_step lt formData step st =
     (if js_lt lt step (maxSteps formData)
      then (let stepCard = length (cards st);
                st1 = st\<lparr>cards := cards st @ [createStepCard (step + 1)]\<rparr>;
                st2 = st1\<lparr>results := results st1 @ [stepCard]\<rparr>
            in st2\<lparr>requests := requests st2 @ [generate_request formData step (previousResponses st2)],
                   gen_pending := gen_pending st2 @
                     [(length (requests st2),
                       \<lparr>run_form = formData, run_step = step, run_card = stepCard\<rparr>)]\<rparr>)
      else st)"

text \<open>\<^verbatim>\<open>handleFormSubmit\<close> up to its first \<^verbatim>\<open>await\<close>; the five
  arguments are the values of the form's fields.\<close>

definition handleFormSubmit ::
  "(nat \<Rightarrow> string \<Rightarrow> bool) \<Rightarrow> string \<Rightarrow> string \<Rightarrow> string \<Rightarrow> string \<Rightarrow> string \<Rightarrow> state \<Rightarrow> state" where
  "handleFormSubmit lt subj level hours style gl st =
     (let formData = \<lparr>subject = subj, currentLevel = level, timeAvailable = hours,
                       learningStyle = style, goal = gl, maxSteps = ui_maxSteps st\<rparr>;
          st1 = st\<lparr>currentSubject := subject formData\<rparr>;
          st2 = st1\<lparr>results := []\<rparr>;
          st3 = st2\<lparr>previousResponses := []\<rparr>
      in enter_step lt formData 0 st3)"

text \<open>\<^verbatim>\<open>handleFormSubmit\<close> from the settling of a step's request on: the rest of
  the inner \<^verbatim>\<open>try\<close>, or its \<^verbatim>\<open>catch\<close> and the \<^verbatim>\<open>break\<close>, and
  on success the next turn of the loop. The last case is never taken:
  \<^verbatim>\<open>marked.parse\<close> has thrown when the response is undefined.\<close>

definition handleFormSubmit_resume ::
  "(nat \<Rightarrow> string \<Rightarrow> bool) \<Rightarrow> nat \<Rightarrow> fetch_outcome \<Rightarrow> state \<Rightarrow> state" where
  "handleFormSubmit_resume lt rid outcome st =
     (case map_of (gen_pending st) rid of
        None \<Rightarrow> st
      | Some r \<Rightarrow>
          (let st0 = st\<lparr>gen_pending := filter (\<lambda>p. fst p \<noteq> rid) (gen_pending st)\<rparr>;
               stepCard = run_card r
           in case generateStep_result outcome of
                Inl msg \<Rightarrow>
                  st0\<lparr>cards := (cards st0)[stepCard := showError (cards st0 ! stepCard) msg]\<rparr>
              | Inr resp \<Rightarrow>
                  (case updateStepCard (cards st0 ! stepCard) resp of
                     (c, Some msg) \<Rightarrow> st0\<lparr>cards := (cards st0)[stepCard := showError c msg]\<rparr>
                   | (c, None) \<Rightarrow>
                       (case resp of
                          Some text \<Rightarrow>
                            enter_step lt (run_form r) (Suc (run_step r))
                              (st0\<lparr>cards := (cards st0)[stepCard := c],
                                   previousResponses := previousResponses st0 @ [text]\<rparr>)
                        | None \<Rightarrow> st0))))"

subsection \<open>The page and its events\<close>

text \<open>The constructors of \<^verbatim>\<open>UIComponents\<close>, \<^verbatim>\<open>UIState\<close> and
  \<^verbatim>\<open>SelectionHandler\<close> on a page whose element with id
  \<^verbatim>\<open>maxSteps\<close>, if there is one, has the given value.\<close>

definition initial_maxSteps :: "string option \<Rightarrow> js_value" where
  "initial_maxSteps elem =
     (case elem of None \<Rightarrow> JNum 1 | Some v \<Rightarrow> if v = [] then JNum 1 else JStr v)"

definition init :: "string option \<Rightarrow> state" where
  "init elem =
     \<lparr>ui_maxSteps = initial_maxSteps elem, cards = [], results = [],
      modal_hidden = True, modal_loading_class = False, modalTitle = [], modalContent = NoContent,
      isModalLoading = False, previousResponses = [], floatingButton = None,
      currentSelection = [], currentSubject = [],
      buttons = [], body_buttons = [],
      requests = [], gen_pending = [], exp_pending = []\<rparr>"

datatype event =
    Submit string string string string string
  | GenerateSettled nat fetch_outcome
  | SelectionChange selection
  | MouseUp "nat option" selection
  | MouseDown "nat option"
  | ButtonClick nat
  | ModalClose
  | DetailsSettled nat fetch_outcome

fun handle :: "(nat \<Rightarrow> string \<Rightarrow> bool) \<Rightarrow> state \<Rightarrow> event \<Rightarrow> state" where
  "handle lt st (Submit subj level hours style gl) = handleFormSubmit lt subj level hours style gl st"
| "handle lt st (GenerateSettled rid outcome) = handleFormSubmit_resume lt rid outcome st"
| "handle lt st (SelectionChange sel) = handleSelectionChange sel st"
| "handle lt st (MouseUp target sel) = on_mouseup target sel st"
| "handle lt st (MouseDown target) = on_mousedown target st"
| "handle lt st (ButtonClick b) = on_button_click b st"
| "handle lt st ModalClose = st\<lparr>modal_hidden := True\<rparr>"
| "handle lt st (DetailsSettled rid outcome) = handleExplanationRequest_resume rid outcome st"

definition run_events :: "(nat \<Rightarrow> string \<Rightarrow> bool) \<Rightarrow> state \<Rightarrow> event list \<Rightarrow> state" where
  "run_events lt st evs = foldl (handle lt) st evs"

subsection \<open>Properties of requests, outcomes and states\<close>

definition backend_post :: "request \<Rightarrow> bool" where
  "backend_post r =
     (http_method r = ''POST'' \<and> (endpoint r = API_GENERATE \<or> endpoint r = API_COMPONENT_DETAILS))"

definition is_generate :: "request \<Rightarrow> bool" where
  "is_generate r = (endpoint r = API_GENERATE)"


text \<open>A step succeeds when the response is ok and its JSON body has a response text.\<close>

definition success_text :: "fetch_outcome \<Rightarrow> string option" where
  "success_text outcome =
     (case outcome of
        Rejected msg \<Rightarrow> None
      | Response status b \<Rightarrow>
          (case b of
             NotJson msg \<Rightarrow> None
           | Json err resp \<Rightarrow> if response_ok status then resp else None))"

text \<open>The card of a step once \<^verbatim>\<open>updateStepCard\<close> has put a text into it.\<close>

definition rendered :: "nat \<Rightarrow> string \<Rightarrow> card" where
  "rendered stepNumber text = fst (updateStepCard (createStepCard stepNumber) (Some text))"

fun is_submit :: "event \<Rightarrow> bool" where
  "is_submit (Submit s l h y g) = True"
| "is_submit e = False"

text \<open>The loading flag is set exactly while an explanation request is pending, and at most
  one is.\<close>

definition modal_inv :: "state \<Rightarrow> bool" where
  "modal_inv st = ((isModalLoading st \<longleftrightarrow> exp_pending st \<noteq> []) \<and> length (exp_pending st) \<le> 1)"

text \<open>The tracked floating button is an existing element attached to the body.\<close>

definition button_inv :: "state \<Rightarrow> bool" where
  "button_inv st =
     (case floatingButton st of
        None \<Rightarrow> True
      | Some b \<Rightarrow> b \<in> set (body_buttons st) \<and> b < length (buttons st))"

text \<open>Every suspended call of \<^verbatim>\<open>handleFormSubmit\<close> has the page's bound in its
  form data and an existing card.\<close>

definition runs_inv :: "state \<Rightarrow> bool" where
  "runs_inv st =
     list_all (\<lambda>p. maxSteps (run_form (snd p)) = ui_maxSteps st \<and> run_card (snd p) < length (cards st))
       (gen_pending st)"

text \<open>The outcomes that reach a suspended call of \<^verbatim>\<open>handleFormSubmit\<close> in the
  course of the events: those of the events that settle a request a call is waiting
  for.\<close>

fun delivered :: "(nat \<Rightarrow> string \<Rightarrow> bool) \<Rightarrow> state \<Rightarrow> event list \<Rightarrow> fetch_outcome list" where
  "delivered lt st [] = []"
| "delivered lt st (e # es) =
     (case e of
        GenerateSettled rid oc \<Rightarrow> if map_of (gen_pending st) rid = None then [] else [oc]
      | _ \<Rightarrow> [])
     @ delivered lt (handle lt st e) es"

text \<open>The texts of the outcomes up to the first that is not a success.\<close>

fun received :: "fetch_outcome list \<Rightarrow> string list" where
  "received [] = []"
| "received (oc # ocs) = (case success_text oc of None \<Rightarrow> [] | Some t \<Rightarrow> t # received ocs)"

text \<open>The card of a step whose outcome was not a success, as the \<^verbatim>\<open>catch\<close> block
  leaves it.\<close>

definition failed_card :: "nat \<Rightarrow> fetch_outcome \<Rightarrow> card" where
  "failed_card stepNumber oc =
     (case generateStep_result oc of
        Inl msg \<Rightarrow> showError (createStepCard stepNumber) msg
      | Inr resp \<Rightarrow>
          (case updateStepCard (createStepCard stepNumber) resp of
             (c, Some msg) \<Rightarrow> showError c msg
           | (c, None) \<Rightarrow> c))"

text \<open>Where a submission stands that was made in the state \<open>st\<close> with the form data
  \<open>fd\<close> and the bound \<open>N\<close>, once the outcomes \<open>D\<close> have reached it: the collected
  responses, the cards, the results area, the requests sent to \<^verbatim>\<open>/generate\<close> and
  the suspended call.\<close>

definition sub_state :: "state \<Rightarrow> form_data \<Rightarrow> nat \<Rightarrow> fetch_outcome list \<Rightarrow> state \<Rightarrow> bool" where
  "sub_state st fd N D S =
     (let p = received D; k = length p; c0 = length (cards st)
      in previousResponses S = p
       \<and> k \<le> N \<and> length D \<le> Suc k \<and> (length D = k \<or> k < N)
       \<and> cards S = cards st @ map (\<lambda>(i, t). rendered (Suc i) t) (enumerate 0 p)
           @ (if k < N
              then [if length D = k then createStepCard (Suc k) else failed_card (Suc k) (D ! k)]
              else [])
       \<and> results S = [c0 ..< c0 + k] @ (if k < N then [c0 + k] else [])
       \<and> filter is_generate (requests S) = filter is_generate (requests st)
           @ map (\<lambda>i. generate_request fd i (take i p)) [0..<k]
           @ (if k < N then [generate_request fd k p] else [])
       \<and> (if length D = k \<and> k < N
          then map snd (gen_pending S) = [\<lparr>run_form = fd, run_step = k, run_card = c0 + k\<rparr>]
             \<and> list_all (\<lambda>q. fst q < length (requests S)
                   \<and> requests S ! fst q = generate_request fd k p) (gen_pending S)
          else gen_pending S = []))"

subsection \<open>Concrete inputs\<close>

text \<open>An instance of the comparison \<open>lt\<close>: the engine's conversion of a string to a
  number (white space trimmed, the empty string 0, hexadecimal, octal and binary integers,
  signed decimal numerals with fraction and exponent, \<open>Infinity\<close>, anything else not a
  number) followed by the comparison of numbers. The value is the exact rational, where the
  engine rounds to a double: the two agree on numerals of up to 15 significant digits within
  the doubles' range.\<close>

datatype js_number = NaN | Finite rat | PlusInfinity | MinusInfinity

definition digit_of :: "nat \<Rightarrow> char \<Rightarrow> nat option" where
  "digit_of base c =
     (let n = (of_char c :: nat);
          v = (if 48 \<le> n \<and> n \<le> 57 then Some (n - 48)
               else if 97 \<le> n \<and> n \<le> 102 then Some (n - 87)
               else if 65 \<le> n \<and> n \<le> 70 then Some (n - 55)
               else None)
      in case v of None \<Rightarrow> None | Some d \<Rightarrow> if d < base then Some d else None)"

fun digits_value :: "nat \<Rightarrow> string \<Rightarrow> nat \<Rightarrow> nat option" where
  "digits_value base [] acc = Some acc"
| "digits_value base (c # cs) acc =
     (case digit_of base c of None \<Rightarrow> None | Some d \<Rightarrow> digits_value base cs (base * acc + d))"

definition digits1 :: "nat \<Rightarrow> string \<Rightarrow> nat option" where
  "digits1 base s = (if s = [] then None else digits_value base s 0)"

definition exponent_value :: "string \<Rightarrow> int option" where
  "exponent_value s =
     (case s of
        [] \<Rightarrow> None
      | c # cs \<Rightarrow>
          if c = CHR ''+'' then map_option int (digits1 10 cs)
          else if c = CHR ''-'' then map_option (\<lambda>n. - int n) (digits1 10 cs)
          else map_option int (digits1 10 s))"

definition mantissa_value :: "string \<Rightarrow> rat option" where
  "mantissa_value s =
     (let ip = takeWhile (\<lambda>c. c \<noteq> CHR ''.'') s
      in case dropWhile (\<lambda>c. c \<noteq> CHR ''.'') s of
           [] \<Rightarrow> map_option of_nat (digits1 10 ip)
         | dot # fp \<Rightarrow>
             if ip = [] \<and> fp = [] then None
             else (case (digits_value 10 ip 0, digits_value 10 fp 0) of
                     (Some i, Some f) \<Rightarrow> Some (of_nat i + of_nat f / 10 ^ length fp)
                   | _ \<Rightarrow> None))"

definition decimal_literal :: "string \<Rightarrow> rat option" where
  "decimal_literal s =
     (let m = takeWhile (\<lambda>c. c \<noteq> CHR ''e'' \<and> c \<noteq> CHR ''E'') s
      in case dropWhile (\<lambda>c. c \<noteq> CHR ''e'' \<and> c \<noteq> CHR ''E'') s of
           [] \<Rightarrow> mantissa_value m
         | e # ex \<Rightarrow>
             (case (mantissa_value m, exponent_value ex) of
                (Some q, Some x) \<Rightarrow> Some (if 0 \<le> x then q * 10 ^ nat x else q / 10 ^ nat (- x))
              | _ \<Rightarrow> None))"

definition unsigned_literal :: "string \<Rightarrow> js_number" where
  "unsigned_literal s =
     (if s = ''Infinity'' then PlusInfinity
      else case decimal_literal s of None \<Rightarrow> NaN | Some q \<Rightarrow> Finite q)"

definition negate :: "js_number \<Rightarrow> js_number" where
  "negate x = (case x of NaN \<Rightarrow> NaN | Finite q \<Rightarrow> Finite (- q)
     | PlusInfinity \<Rightarrow> MinusInfinity | MinusInfinity \<Rightarrow> PlusInfinity)"

definition radix_literal :: "nat \<Rightarrow> string \<Rightarrow> js_number" where
  "radix_literal base s = (case digits1 base s of None \<Rightarrow> NaN | Some n \<Rightarrow> Finite (of_nat n))"

definition string_to_number :: "string \<Rightarrow> js_number" where
  "string_to_number s =
     (let t = trim s
      in if t = [] then Finite 0
         else if take 2 t = ''0x'' \<or> take 2 t = ''0X'' then radix_literal 16 (drop 2 t)
         else if take 2 t = ''0o'' \<or> take 2 t = ''0O'' then radix_literal 8 (drop 2 t)
         else if take 2 t = ''0b'' \<or> take 2 t = ''0B'' then radix_literal 2 (drop 2 t)
         else if hd t = CHR ''-'' then negate (unsigned_literal (tl t))
         else if hd t = CHR ''+'' then unsigned_literal (tl t)
         else unsigned_literal t)"

definition engine_lt :: "nat \<Rightarrow> string \<Rightarrow> bool" where
  "engine_lt k s =
     (case string_to_number s of
        NaN \<Rightarrow> False
      | Finite q \<Rightarrow> of_nat k < q
      | PlusInfinity \<Rightarrow> True
      | MinusInfinity \<Rightarrow> False)"

definition ok_reply :: "string \<Rightarrow> fetch_outcome" where
  "ok_reply text = Response 200 (Json None (Some text))"

definition first_form :: event where
  "first_form = Submit ''JavaScript'' ''beginner'' ''10'' ''visual'' ''closures''"

definition second_form :: event where
  "second_form = Submit ''Python'' ''advanced'' ''5'' ''reading'' ''decorators''"

text \<open>A selection of the given text in a text node of a step card's content.\<close>

definition selection_in_card :: "string \<Rightarrow> selection" where
  "selection_in_card txt =
     \<lparr>sel_text = txt, rangeCount = 1,
      container = DomNode True None [[''step-content'', ''markdown-content''], [''step-card'']],
      rect_width = 80, rect_height = 16\<rparr>"

text \<open>A page with one generated step, where the user selects a word and asks for its
  explanation.\<close>

definition explain_events :: "event list" where
  "explain_events =
     [first_form, GenerateSettled 0 (ok_reply ''# Plan''),
      SelectionChange (selection_in_card ''closure''),
      MouseUp None (selection_in_card ''closure''),
      ButtonClick 0]"

text \<open>The same, after which the user closes the modal while the explanation is still
  loading and selects another word.\<close>

definition busy_events :: "event list" where
  "busy_events =
     explain_events @
     [ModalClose, MouseDown None,
      SelectionChange (selection_in_card ''promise''),
      MouseUp None (selection_in_card ''promise'')]"

text \<open>A submission on a page with three steps: while its second step is in flight the user
  selects a word of the first card and asks for its explanation.\<close>

definition interleaved_events :: "event list" where
  "interleaved_events =
     [GenerateSettled 0 (ok_reply ''# Basics''),
      SelectionChange (selection_in_card ''closure''),
      MouseUp None (selection_in_card ''closure''),
      ButtonClick 0,
      GenerateSettled 1 (ok_reply ''## More'')]"

text \<open>An earlier submission of another form, whose first step fails.\<close>

definition earlier_events :: "event list" where
  "earlier_events = [second_form, GenerateSettled 0 (Rejected ''Failed to fetch'')]"


section \<open>Proofs\<close>

subsection \<open>What each handler leaves alone\<close>

lemma removeFloatingButton_frame [simp]:
  "requests (removeFloatingButton st) = requests st"
  "exp_pending (removeFloatingButton st) = exp_pending st"
  "gen_pending (removeFloatingButton st) = gen_pending st"
  "isModalLoading (removeFloatingButton st) = isModalLoading st"
  "modal_loading_class (removeFloatingButton st) = modal_loading_class st"
  "modalContent (removeFloatingButton st) = modalContent st"
  "modalTitle (removeFloatingButton st) = modalTitle st"
  "modal_hidden (removeFloatingButton st) = modal_hidden st"
  "ui_maxSteps (removeFloatingButton st) = ui_maxSteps st"
  "cards (removeFloatingButton st) = cards st"
  "results (removeFloatingButton st) = results st"
  "previousResponses (removeFloatingButton st) = previousResponses st"
  "currentSelection (removeFloatingButton st) = currentSelection st"
  "currentSubject (removeFloatingButton st) = currentSubject st"
  "buttons (removeFloatingButton st) = buttons st"
  by (simp_all add: removeFloatingButton_def split: option.split)

lemma handleSelectionChange_frame [simp]:
  "requests (handleSelectionChange sel st) = requests st"
  "exp_pending (handleSelectionChange sel st) = exp_pending st"
  "gen_pending (handleSelectionChange sel st) = gen_pending st"
  "isModalLoading (handleSelectionChange sel st) = isModalLoading st"
  "modal_loading_class (handleSelectionChange sel st) = modal_loading_class st"
  "modalContent (handleSelectionChange sel st) = modalContent st"
  "modalTitle (handleSelectionChange sel st) = modalTitle st"
  "modal_hidden (handleSelectionChange sel st) = modal_hidden st"
  "ui_maxSteps (handleSelectionChange sel st) = ui_maxSteps st"
  "cards (handleSelectionChange sel st) = cards st"
  "results (handleSelectionChange sel st) = results st"
  "previousResponses (handleSelectionChange sel st) = previousResponses st"
  "currentSubject (handleSelectionChange sel st) = currentSubject st"
  "buttons (handleSelectionChange sel st) = buttons st"
  by (simp_all add: handleSelectionChange_def Let_def split: option.split)

lemma updateFloatingButtonPosition_frame [simp]:
  "requests (updateFloatingButtonPosition sel st) = requests st"
  "exp_pending (updateFloatingButtonPosition sel st) = exp_pending st"
  "gen_pending (updateFloatingButtonPosition sel st) = gen_pending st"
  "isModalLoading (updateFloatingButtonPosition sel st) = isModalLoading st"
  "modal_loading_class (updateFloatingButtonPosition sel st) = modal_loading_class st"
  "modalContent (updateFloatingButtonPosition sel st) = modalContent st"
  "modalTitle (updateFloatingButtonPosition sel st) = modalTitle st"
  "modal_hidden (updateFloatingButtonPosition sel st) = modal_hidden st"
  "ui_maxSteps (updateFloatingButtonPosition sel st) = ui_maxSteps st"
  "cards (updateFloatingButtonPosition sel st) = cards st"
  "results (updateFloatingButtonPosition sel st) = results st"
  "previousResponses (updateFloatingButtonPosition sel st) = previousResponses st"
  "currentSelection (updateFloatingButtonPosition sel st) = currentSelection st"
  "currentSubject (updateFloatingButtonPosition sel st) = currentSubject st"
  by (simp_all add: updateFloatingButtonPosition_def createFloatingButton_def Let_def
      split: option.split prod.split)

lemma on_mouseup_frame [simp]:
  "requests (on_mouseup t sel st) = requests st"
  "exp_pending (on_mouseup t sel st) = exp_pending st"
  "gen_pending (on_mouseup t sel st) = gen_pending st"
  "isModalLoading (on_mouseup t sel st) = isModalLoading st"
  "modal_loading_class (on_mouseup t sel st) = modal_loading_class st"
  "modalContent (on_mouseup t sel st) = modalContent st"
  "modalTitle (on_mouseup t sel st) = modalTitle st"
  "modal_hidden (on_mouseup t sel st) = modal_hidden st"
  "ui_maxSteps (on_mouseup t sel st) = ui_maxSteps st"
  "cards (on_mouseup t sel st) = cards st"
  "results (on_mouseup t sel st) = results st"
  "previousResponses (on_mouseup t sel st) = previousResponses st"
  "currentSelection (on_mouseup t sel st) = currentSelection st"
  "currentSubject (on_mouseup t sel st) = currentSubject st"
  by (simp_all add: on_mouseup_def)

lemma on_mousedown_frame [simp]:
  "requests (on_mousedown t st) = requests st"
  "exp_pending (on_mousedown t st) = exp_pending st"
  "gen_pending (on_mousedown t st) = gen_pending st"
  "isModalLoading (on_mousedown t st) = isModalLoading st"
  "modal_loading_class (on_mousedown t st) = modal_loading_class st"
  "modalContent (on_mousedown t st) = modalContent st"
  "modalTitle (on_mousedown t st) = modalTitle st"
  "modal_hidden (on_mousedown t st) = modal_hidden st"
  "ui_maxSteps (on_mousedown t st) = ui_maxSteps st"
  "cards (on_mousedown t st) = cards st"
  "results (on_mousedown t st) = results st"
  "previousResponses (on_mousedown t st) = previousResponses st"
  "currentSelection (on_mousedown t st) = currentSelection st"
  "currentSubject (on_mousedown t st) = currentSubject st"
  "buttons (on_mousedown t st) = buttons st"
  by (simp_all add: on_mousedown_def Let_def)

lemma handleExplanationRequest_frame [simp]:
  "gen_pending (handleExplanationRequest st) = gen_pending st"
  "ui_maxSteps (handleExplanationRequest st) = ui_maxSteps st"
  "cards (handleExplanationRequest st) = cards st"
  "results (handleExplanationRequest st) = results st"
  "previousResponses (handleExplanationRequest st) = previousResponses st"
  "currentSelection (handleExplanationRequest st) = currentSelection st"
  "currentSubject (handleExplanationRequest st) = currentSubject st"
  "buttons (handleExplanationRequest st) = buttons st"
  "body_buttons (handleExplanationRequest st) = body_buttons st"
  "floatingButton (handleExplanationRequest st) = floatingButton st"
  by (simp_all add: handleExplanationRequest_def setModalLoading_def Let_def)

lemma explain_funpow_frame [simp]:
  "gen_pending ((handleExplanationRequest ^^ n) st) = gen_pending st"
  "ui_maxSteps ((handleExplanationRequest ^^ n) st) = ui_maxSteps st"
  "cards ((handleExplanationRequest ^^ n) st) = cards st"
  "results ((handleExplanationRequest ^^ n) st) = results st"
  "previousResponses ((handleExplanationRequest ^^ n) st) = previousResponses st"
  "currentSelection ((handleExplanationRequest ^^ n) st) = currentSelection st"
  "currentSubject ((handleExplanationRequest ^^ n) st) = currentSubject st"
  "buttons ((handleExplanationRequest ^^ n) st) = buttons st"
  "body_buttons ((handleExplanationRequest ^^ n) st) = body_buttons st"
  "floatingButton ((handleExplanationRequest ^^ n) st) = floatingButton st"
  by (induction n) simp_all

lemma on_button_click_frame [simp]:
  "gen_pending (on_button_click b st) = gen_pending st"
  "ui_maxSteps (on_button_click b st) = ui_maxSteps st"
  "cards (on_button_click b st) = cards st"
  "results (on_button_click b st) = results st"
  "previousResponses (on_button_click b st) = previousResponses st"
  "currentSelection (on_button_click b st) = currentSelection st"
  "currentSubject (on_button_click b st) = currentSubject st"
  "body_buttons (on_button_click b st) = body_buttons st"
  "floatingButton (on_button_click b st) = floatingButton st"
  "length (buttons (on_button_click b st)) = length (buttons st)"
  by (simp_all add: on_button_click_def Let_def)

lemma handleExplanationRequest_resume_frame [simp]:
  "requests (handleExplanationRequest_resume rid oc st) = requests st"
  "gen_pending (handleExplanationRequest_resume rid oc st) = gen_pending st"
  "ui_maxSteps (handleExplanationRequest_resume rid oc st) = ui_maxSteps st"
  "cards (handleExplanationRequest_resume rid oc st) = cards st"
  "results (handleExplanationRequest_resume rid oc st) = results st"
  "previousResponses (handleExplanationRequest_resume rid oc st) = previousResponses st"
  "currentSelection (handleExplanationRequest_resume rid oc st) = currentSelection st"
  "currentSubject (handleExplanationRequest_resume rid oc st) = currentSubject st"
  "buttons (handleExplanationRequest_resume rid oc st) = buttons st"
  "modalTitle (handleExplanationRequest_resume rid oc st) = modalTitle st"
  "modal_hidden (handleExplanationRequest_resume rid oc st) = modal_hidden st"
  by (simp_all add: handleExplanationRequest_resume_def setModalLoading_def Let_def split: sum.split)

lemma enter_step_frame [simp]:
  "ui_maxSteps (enter_step lt fd k st) = ui_maxSteps st"
  "exp_pending (enter_step lt fd k st) = exp_pending st"
  "isModalLoading (enter_step lt fd k st) = isModalLoading st"
  "modal_loading_class (enter_step lt fd k st) = modal_loading_class st"
  "modalContent (enter_step lt fd k st) = modalContent st"
  "modalTitle (enter_step lt fd k st) = modalTitle st"
  "modal_hidden (enter_step lt fd k st) = modal_hidden st"
  "currentSelection (enter_step lt fd k st) = currentSelection st"
  "currentSubject (enter_step lt fd k st) = currentSubject st"
  "buttons (enter_step lt fd k st) = buttons st"
  "body_buttons (enter_step lt fd k st) = body_buttons st"
  "floatingButton (enter_step lt fd k st) = floatingButton st"
  "previousResponses (enter_step lt fd k st) = previousResponses st"
  by (simp_all add: enter_step_def Let_def)

lemma handleFormSubmit_frame [simp]:
  "ui_maxSteps (handleFormSubmit lt s l h y g st) = ui_maxSteps st"
  "exp_pending (handleFormSubmit lt s l h y g st) = exp_pending st"
  "isModalLoading (handleFormSubmit lt s l h y g st) = isModalLoading st"
  "modal_loading_class (handleFormSubmit lt s l h y g st) = modal_loading_class st"
  "modalContent (handleFormSubmit lt s l h y g st) = modalContent st"
  "modalTitle (handleFormSubmit lt s l h y g st) = modalTitle st"
  "modal_hidden (handleFormSubmit lt s l h y g st) = modal_hidden st"
  "currentSelection (handleFormSubmit lt s l h y g st) = currentSelection st"
  "buttons (handleFormSubmit lt s l h y g st) = buttons st"
  "body_buttons (handleFormSubmit lt s l h y g st) = body_buttons st"
  "floatingButton (handleFormSubmit lt s l h y g st) = floatingButton st"
  "previousResponses (handleFormSubmit lt s l h y g st) = []"
  "currentSubject (handleFormSubmit lt s l h y g st) = s"
  by (simp_all add: handleFormSubmit_def Let_def)

lemma handleFormSubmit_resume_frame [simp]:
  "ui_maxSteps (handleFormSubmit_resume lt rid oc st) = ui_maxSteps st"
  "exp_pending (handleFormSubmit_resume lt rid oc st) = exp_pending st"
  "isModalLoading (handleFormSubmit_resume lt rid oc st) = isModalLoading st"
  "modal_loading_class (handleFormSubmit_resume lt rid oc st) = modal_loading_class st"
  "modalContent (handleFormSubmit_resume lt rid oc st) = modalContent st"
  "modalTitle (handleFormSubmit_resume lt rid oc st) = modalTitle st"
  "modal_hidden (handleFormSubmit_resume lt rid oc st) = modal_hidden st"
  "currentSelection (handleFormSubmit_resume lt rid oc st) = currentSelection st"
  "currentSubject (handleFormSubmit_resume lt rid oc st) = currentSubject st"
  "buttons (handleFormSubmit_resume lt rid oc st) = buttons st"
  "body_buttons (handleFormSubmit_resume lt rid oc st) = body_buttons st"
  "floatingButton (handleFormSubmit_resume lt rid oc st) = floatingButton st"
  by (simp_all add: handleFormSubmit_resume_def Let_def split: option.split sum.split prod.split)

subsection \<open>Every request is a POST to one of the two endpoints\<close>

lemma backend_post_generate: "backend_post (generate_request fd k prev)"
  by (simp add: backend_post_def generate_request_def)

lemma backend_post_details: "backend_post (details_request c s)"
  by (simp add: backend_post_def details_request_def API_COMPONENT_DETAILS_def)

lemma getComponentDetails_same: "getComponentDetails_request c s = details_request c s"
  by (simp add: getComponentDetails_request_def details_request_def API_COMPONENT_DETAILS_def)

lemma posts_explain:
  "list_all backend_post (requests st) \<Longrightarrow> list_all backend_post (requests (handleExplanationRequest st))"
  by (simp add: handleExplanationRequest_def setModalLoading_def Let_def backend_post_details)

lemma posts_explain_funpow:
  "list_all backend_post (requests st) \<Longrightarrow> list_all backend_post (requests ((handleExplanationRequest ^^ n) st))"
  by (induction n) (simp_all add: posts_explain)

lemma posts_enter_step:
  "list_all backend_post (requests st) \<Longrightarrow> list_all backend_post (requests (enter_step lt fd k st))"
  by (simp add: enter_step_def Let_def backend_post_generate)

lemma posts_handle:
  assumes "list_all backend_post (requests st)"
  shows "list_all backend_post (requests (handle lt st e))"
proof (cases e)
  case (Submit s l h y g)
  then show ?thesis using assms
    by (simp add: handleFormSubmit_def Let_def posts_enter_step)
next
  case (GenerateSettled rid oc)
  then show ?thesis using assms
    by (auto simp: handleFormSubmit_resume_def Let_def intro!: posts_enter_step
        split: option.split sum.split prod.split)
next
  case (ButtonClick b)
  then show ?thesis using assms
    by (simp add: on_button_click_def Let_def posts_explain_funpow)
qed (use assms in simp_all)

lemma posts_run:
  "list_all backend_post (requests st) \<Longrightarrow> list_all backend_post (requests (run_events lt st evs))"
  unfolding run_events_def
  by (induction evs arbitrary: st) (simp_all add: posts_handle)

text \<open>C7: whatever events the page goes through from its initial state, every request it
  has issued is a POST to \<^verbatim>\<open>/generate\<close> or to
  \<^verbatim>\<open>/get_component_details\<close>; no other endpoint is contacted.\<close>

theorem requests_are_backend_posts:
  "list_all backend_post (requests (run_events lt (init elem) evs))"
  by (rule posts_run) (simp add: init_def)

subsection \<open>At most one explanation request in flight\<close>

lemma explain_guarded:
  "currentSubject st = [] \<or> currentSelection st = [] \<or> isModalLoading st \<Longrightarrow>
   handleExplanationRequest st = st"
  by (auto simp: handleExplanationRequest_def)

lemma explain_loading_funpow: "isModalLoading st \<Longrightarrow> (handleExplanationRequest ^^ n) st = st"
  by (induction n) (simp_all add: explain_guarded)

lemma modal_inv_explain: "modal_inv st \<Longrightarrow> modal_inv (handleExplanationRequest st)"
  by (auto simp: modal_inv_def handleExplanationRequest_def setModalLoading_def Let_def)

lemma modal_inv_explain_funpow: "modal_inv st \<Longrightarrow> modal_inv ((handleExplanationRequest ^^ n) st)"
  by (induction n) (simp_all add: modal_inv_explain)

lemma modal_inv_details:
  assumes "modal_inv st"
  shows "modal_inv (handleExplanationRequest_resume rid oc st)"
proof (cases "rid \<in> set (exp_pending st)")
  case False
  then show ?thesis using assms by (simp add: handleExplanationRequest_resume_def)
next
  case True
  with assms have "exp_pending st = [rid]"
    by (cases "exp_pending st") (auto simp: modal_inv_def)
  then show ?thesis
    by (simp add: handleExplanationRequest_resume_def modal_inv_def setModalLoading_def Let_def
        split: sum.split)
qed

lemma modal_inv_handle:
  assumes "modal_inv st"
  shows "modal_inv (handle lt st e)"
proof (cases e)
  case (ButtonClick b)
  have "modal_inv (st\<lparr>buttons := bs\<rparr>)" for bs
    using assms by (simp add: modal_inv_def)
  then show ?thesis using assms ButtonClick
    by (simp add: on_button_click_def Let_def modal_inv_explain_funpow)
next
  case (DetailsSettled rid oc)
  then show ?thesis using assms by (simp add: modal_inv_details)
qed (use assms in \<open>simp_all add: modal_inv_def\<close>)

lemma modal_inv_run: "modal_inv st \<Longrightarrow> modal_inv (run_events lt st evs)"
  unfolding run_events_def
  by (induction evs arbitrary: st) (simp_all add: modal_inv_handle)

lemma modal_inv_init: "modal_inv (init elem)"
  by (simp add: modal_inv_def init_def)

text \<open>C9: \<^verbatim>\<open>handleExplanationRequest\<close> returns the state as it found it (no
  fetch, modal not opened, nothing changed) when the current subject is empty, or the current
  selection is empty, or an explanation is already loading; and in every state the page can
  reach at most one \<^verbatim>\<open>/get_component_details\<close> request is in flight.\<close>

theorem explanation_request_guarded:
  "(currentSubject st = [] \<or> currentSelection st = [] \<or> isModalLoading st \<longrightarrow>
      handleExplanationRequest st = st)
   \<and> length (exp_pending (run_events lt (init elem) evs)) \<le> 1"
  using explain_guarded [of st] modal_inv_run [OF modal_inv_init, of lt elem evs]
  by (simp add: modal_inv_def)

theorem explanation_request_guarded_witness:
  "isModalLoading (init None\<lparr>isModalLoading := True\<rparr>)
   \<and> handleExplanationRequest (init None\<lparr>isModalLoading := True\<rparr>) = init None\<lparr>isModalLoading := True\<rparr>
   \<and> length (exp_pending (run_events (\<lambda>k s. False) (init None) [ModalClose])) \<le> 1"
  using explanation_request_guarded [of "init None\<lparr>isModalLoading := True\<rparr>" "\<lambda>k s. False" None "[ModalClose]"]
  by simp

subsection \<open>The tracked floating button is attached\<close>

lemma button_inv_iff:
  "button_inv st \<longleftrightarrow>
     (\<forall>b. floatingButton st = Some b \<longrightarrow> b \<in> set (body_buttons st) \<and> b < length (buttons st))"
  by (simp add: button_inv_def split: option.split)

lemma button_inv_remove: "button_inv st \<Longrightarrow> floatingButton (removeFloatingButton st) = None"
  by (auto simp: button_inv_iff removeFloatingButton_def split: option.splits)

lemma button_inv_remove_gone:
  "floatingButton st = Some b \<Longrightarrow> button_inv st \<Longrightarrow> b \<notin> set (body_buttons (removeFloatingButton st))"
  by (auto simp: button_inv_iff removeFloatingButton_def)

lemma button_inv_removed: "button_inv st \<Longrightarrow> button_inv (removeFloatingButton st)"
  by (simp add: button_inv_remove button_inv_iff)

lemma button_inv_cong:
  "floatingButton st' = floatingButton st \<Longrightarrow> body_buttons st' = body_buttons st \<Longrightarrow>
   length (buttons st') = length (buttons st) \<Longrightarrow> button_inv st \<Longrightarrow> button_inv st'"
  by (simp add: button_inv_iff)

lemma button_inv_update:
  assumes "button_inv st"
  shows "button_inv (updateFloatingButtonPosition sel st)"
proof -
  have "button_inv (st1\<lparr>buttons := bs1, body_buttons := bb1\<rparr>
          \<lparr>floatingButton := Some b, body_buttons := removeAll b bb2 @ [b]\<rparr>
          \<lparr>buttons := bs2\<rparr>)"
    if "b < length bs2" for st1 bs1 bb1 b bb2 bs2
    using that by (simp add: button_inv_iff)
  moreover have "b < Suc (length (buttons st1))" if "createFloatingButton st = (b, st1)" for b st1
    using that assms by (auto simp: createFloatingButton_def button_inv_iff Let_def split: option.splits)
  ultimately show ?thesis
    using assms
    by (simp add: updateFloatingButtonPosition_def Let_def button_inv_removed
        split: option.split prod.split)
qed

lemma button_inv_selection:
  assumes "button_inv st"
  shows "button_inv (handleSelectionChange sel st)"
proof -
  have "button_inv (st\<lparr>currentSelection := t\<rparr>)" for t
    using assms by (simp add: button_inv_iff)
  then show ?thesis
    by (simp add: handleSelectionChange_def Let_def button_inv_removed assms split: option.split)
qed

lemma button_inv_handle:
  assumes "button_inv st"
  shows "button_inv (handle lt st e)"
proof (cases e)
  case (SelectionChange sel)
  then show ?thesis using assms by (simp add: button_inv_selection)
next
  case (MouseUp t sel)
  then show ?thesis using assms by (simp add: on_mouseup_def button_inv_update)
next
  case (MouseDown t)
  then show ?thesis using assms by (simp add: on_mousedown_def Let_def button_inv_removed)
next
  case (DetailsSettled rid oc)
  have "button_inv s \<Longrightarrow> button_inv (removeFloatingButton (setModalLoading False (s\<lparr>modalContent := h\<rparr>)))" for s h
    by (rule button_inv_removed) (simp add: button_inv_iff setModalLoading_def)
  moreover have "button_inv (st\<lparr>exp_pending := ps\<rparr>)" for ps
    using assms by (simp add: button_inv_iff)
  ultimately show ?thesis using assms DetailsSettled
    by (simp add: handleExplanationRequest_resume_def Let_def split: sum.split)
qed (use assms in \<open>auto elim: button_inv_cong [rotated 3]\<close>)

lemma button_inv_run: "button_inv st \<Longrightarrow> button_inv (run_events lt st evs)"
  unfolding run_events_def
  by (induction evs arbitrary: st) (simp_all add: button_inv_handle)

lemma button_inv_init: "button_inv (init elem)"
  by (simp add: button_inv_def init_def)

lemma details_settled_content:
  "rid \<in> set (exp_pending st) \<Longrightarrow>
   modalContent (handleExplanationRequest_resume rid oc st) =
     (case explanation_result oc of Inr h \<Rightarrow> h | Inl msg \<Rightarrow> RedDiv (''Error loading content: '' @ msg))"
  by (simp add: handleExplanationRequest_resume_def Let_def setModalLoading_def split: sum.split)

lemma details_settled_flags:
  "rid \<in> set (exp_pending st) \<Longrightarrow>
   \<not> isModalLoading (handleExplanationRequest_resume rid oc st) \<and>
   \<not> modal_loading_class (handleExplanationRequest_resume rid oc st)"
  by (simp add: handleExplanationRequest_resume_def Let_def setModalLoading_def split: sum.split)

lemma details_settled_button:
  assumes "rid \<in> set (exp_pending st)" and "button_inv st"
  shows "floatingButton (handleExplanationRequest_resume rid oc st) = None"
    and "floatingButton st = Some b \<Longrightarrow> b \<notin> set (body_buttons (handleExplanationRequest_resume rid oc st))"
proof -
  let ?mid = "setModalLoading False
    (case explanation_result oc of
       Inr h \<Rightarrow> st\<lparr>exp_pending := removeAll rid (exp_pending st), modalContent := h\<rparr>
     | Inl msg \<Rightarrow> st\<lparr>exp_pending := removeAll rid (exp_pending st),
                      modalContent := RedDiv (''Error loading content: '' @ msg)\<rparr>)"
  have eq: "handleExplanationRequest_resume rid oc st = removeFloatingButton ?mid"
    using assms(1) by (simp add: handleExplanationRequest_resume_def Let_def split: sum.split)
  have fb: "floatingButton ?mid = floatingButton st" and bb: "body_buttons ?mid = body_buttons st"
    and bs: "buttons ?mid = buttons st"
    by (simp_all add: setModalLoading_def split: sum.split)
  have inv: "button_inv ?mid"
    using assms(2) fb bb bs by (simp add: button_inv_iff)
  show "floatingButton (handleExplanationRequest_resume rid oc st) = None"
    unfolding eq by (rule button_inv_remove [OF inv])
  show "b \<notin> set (body_buttons (handleExplanationRequest_resume rid oc st))" if "floatingButton st = Some b"
    unfolding eq using that fb by (intro button_inv_remove_gone [OF _ inv]) simp
qed

text \<open>C5: in a state the page can reach, when the pending request to
  \<^verbatim>\<open>/get_component_details\<close> is settled, a network failure or a response that
  is not ok puts \<open>Error loading content: ...\<close> into the modal content, and whatever the
  outcome the loading flag (and the modal's \<^verbatim>\<open>loading\<close> class) is cleared, no
  floating button is tracked any more, the one that was tracked is detached from the body,
  and no explanation request remains pending.\<close>

theorem explanation_settled_cleanup:
  assumes "st = run_events lt (init elem) evs"
    and "rid \<in> set (exp_pending st)"
    and "st' = handle lt st (DetailsSettled rid outcome)"
  shows "(\<forall>msg. outcome = Rejected msg \<longrightarrow>
            modalContent st' = RedDiv (''Error loading content: '' @ msg))
    \<and> (\<forall>status b. outcome = Response status b \<and> \<not> response_ok status \<longrightarrow>
            modalContent st' =
              RedDiv (''Error loading content: '' @ ''HTTP error! status: '' @ show_nat status))
    \<and> \<not> isModalLoading st' \<and> \<not> modal_loading_class st'
    \<and> floatingButton st' = None
    \<and> (\<forall>b. floatingButton st = Some b \<longrightarrow> b \<notin> set (body_buttons st'))
    \<and> exp_pending st' = []"
proof -
  have inv: "button_inv st"
    unfolding assms(1) by (rule button_inv_run [OF button_inv_init])
  have "modal_inv st"
    unfolding assms(1) by (rule modal_inv_run [OF modal_inv_init])
  with assms(2) have one: "exp_pending st = [rid]"
    by (cases "exp_pending st") (auto simp: modal_inv_def)
  have pend: "exp_pending st' = []"
    using one by (simp add: assms(3) handleExplanationRequest_resume_def Let_def setModalLoading_def
        split: sum.split)
  have st': "st' = handleExplanationRequest_resume rid outcome st"
    by (simp add: assms(3))
  show ?thesis
    using details_settled_content [OF assms(2), where oc = outcome]
      details_settled_flags [OF assms(2), where oc = outcome]
      details_settled_button [OF assms(2) inv, where oc = outcome] pend
    unfolding st' by (auto simp: explanation_result_def simp del: show_nat.simps)
qed

theorem explanation_settled_cleanup_witness:
  "1 \<in> set (exp_pending (run_events engine_lt (init None) explain_events))
   \<and> floatingButton (run_events engine_lt (init None) explain_events) = Some 0
   \<and> modalContent (handle engine_lt (run_events engine_lt (init None) explain_events)
        (DetailsSettled 1 (Response 503 (NotJson ''Unexpected token''))))
      = RedDiv ''Error loading content: HTTP error! status: 503''
   \<and> \<not> isModalLoading (handle engine_lt (run_events engine_lt (init None) explain_events)
        (DetailsSettled 1 (Response 503 (NotJson ''Unexpected token''))))
   \<and> floatingButton (handle engine_lt (run_events engine_lt (init None) explain_events)
        (DetailsSettled 1 (Response 503 (NotJson ''Unexpected token'')))) = None
   \<and> 0 \<notin> set (body_buttons (handle engine_lt (run_events engine_lt (init None) explain_events)
        (DetailsSettled 1 (Response 503 (NotJson ''Unexpected token'')))))"
proof -
  have p: "1 \<in> set (exp_pending (run_events engine_lt (init None) explain_events))"
    by code_simp
  have f: "floatingButton (run_events engine_lt (init None) explain_events) = Some 0"
    by code_simp
  have s: "show_nat 503 = ''503''" by code_simp
  have r: "\<not> response_ok 503" by code_simp
  show ?thesis
    using explanation_settled_cleanup [OF refl p refl, of "Response 503 (NotJson ''Unexpected token'')"]
      p f s r
    by (simp del: show_nat.simps)
qed

subsection \<open>Suspended calls keep the page's bound and an existing card\<close>

lemma runs_inv_iff:
  "runs_inv st \<longleftrightarrow>
     (\<forall>p \<in> set (gen_pending st).
        maxSteps (run_form (snd p)) = ui_maxSteps st \<and> run_card (snd p) < length (cards st))"
  by (simp add: runs_inv_def list_all_iff)

lemma runs_inv_enter:
  "runs_inv st \<Longrightarrow> maxSteps fd = ui_maxSteps st \<Longrightarrow> runs_inv (enter_step lt fd k st)"
  by (auto simp: runs_inv_iff enter_step_def Let_def)

lemma runs_inv_cong:
  "gen_pending st' = gen_pending st \<Longrightarrow> ui_maxSteps st' = ui_maxSteps st \<Longrightarrow>
   cards st' = cards st \<Longrightarrow> runs_inv st \<Longrightarrow> runs_inv st'"
  by (simp add: runs_inv_iff)

lemma runs_inv_lookup:
  assumes "runs_inv st" and "map_of (gen_pending st) rid = Some r"
  shows "maxSteps (run_form r) = ui_maxSteps st" and "run_card r < length (cards st)"
  using assms by (auto simp: runs_inv_iff dest!: map_of_SomeD)

lemma runs_inv_settled:
  assumes "runs_inv st" and "length cs = length (cards st)"
  shows "runs_inv (st\<lparr>gen_pending := filter P (gen_pending st), cards := cs\<rparr>)"
    and "runs_inv (st\<lparr>gen_pending := filter P (gen_pending st), cards := cs, previousResponses := ps\<rparr>)"
    and "runs_inv (st\<lparr>gen_pending := filter P (gen_pending st)\<rparr>)"
  using assms by (auto simp: runs_inv_iff)

lemma runs_inv_resume:
  assumes "runs_inv st"
  shows "runs_inv (handleFormSubmit_resume lt rid oc st)"
proof (cases "map_of (gen_pending st) rid")
  case None
  then show ?thesis using assms by (simp add: handleFormSubmit_resume_def)
next
  case (Some r)
  note m = runs_inv_lookup(1) [OF assms Some]
  show ?thesis using assms Some m
    by (auto simp: handleFormSubmit_resume_def Let_def runs_inv_settled intro!: runs_inv_enter
        split: sum.split prod.split option.split)
qed

lemma runs_inv_handle:
  assumes "runs_inv st"
  shows "runs_inv (handle lt st e)"
proof (cases e)
  case (Submit s l h y g)
  have "runs_inv (st\<lparr>currentSubject := s, results := [], previousResponses := []\<rparr>)"
    using assms by (simp add: runs_inv_iff)
  then show ?thesis using Submit
    by (simp add: handleFormSubmit_def Let_def runs_inv_enter)
next
  case (GenerateSettled rid oc)
  then show ?thesis using assms by (simp add: runs_inv_resume)
qed (use assms in \<open>auto elim: runs_inv_cong [rotated 3]\<close>)

lemma runs_inv_run: "runs_inv st \<Longrightarrow> runs_inv (run_events lt st evs)"
  unfolding run_events_def
  by (induction evs arbitrary: st) (simp_all add: runs_inv_handle)

lemma runs_inv_init: "runs_inv (init elem)"
  by (simp add: runs_inv_def init_def)

lemma ui_maxSteps_handle: "ui_maxSteps (handle lt st e) = ui_maxSteps st"
  by (cases e) simp_all

lemma ui_maxSteps_run: "ui_maxSteps (run_events lt st evs) = ui_maxSteps st"
  unfolding run_events_def
  by (induction evs arbitrary: st) (simp_all add: ui_maxSteps_handle)

subsection \<open>A failed step\<close>



lemma details_not_generate: "\<not> is_generate (details_request c s)"
  by (simp add: is_generate_def details_request_def API_GENERATE_def)







subsection \<open>A page without the maxSteps element\<close>

lemma enter_step_beyond_one:
  "maxSteps fd = JNum 1 \<Longrightarrow> enter_step lt fd (Suc k) st = st"
  by (simp add: enter_step_def js_lt_def)

lemma resume_single:
  assumes "runs_inv st" and "ui_maxSteps st = JNum 1"
  shows "requests (handleFormSubmit_resume lt rid oc st) = requests st
    \<and> length (cards (handleFormSubmit_resume lt rid oc st)) = length (cards st)
    \<and> results (handleFormSubmit_resume lt rid oc st) = results st"
proof (cases "map_of (gen_pending st) rid")
  case None
  then show ?thesis by (simp add: handleFormSubmit_resume_def)
next
  case (Some r)
  from runs_inv_lookup(1) [OF assms(1) Some] assms(2) have "maxSteps (run_form r) = JNum 1" by simp
  then show ?thesis using Some
    by (simp add: handleFormSubmit_resume_def Let_def enter_step_beyond_one
        split: sum.split prod.split option.split)
qed

text \<open>C10: on a page without an element of id \<^verbatim>\<open>maxSteps\<close> the bound is the number
  1 in every state the page can reach; a form submission then creates exactly one step card,
  the only one in the results area, and sends exactly one request, a POST to
  \<^verbatim>\<open>/generate\<close> whose body holds the form data, the step index 0 and an empty
  list of previous responses; and the settling of a request sends no further request and
  creates no further card.\<close>

theorem default_single_step:
  assumes "st = run_events lt (init None) evs"
  shows "ui_maxSteps st = JNum 1
    \<and> cards (handle lt st (Submit s l h y g)) = cards st @
        [\<lparr>data_step = 1, loading_bar = True, loading_text = True, step_content = NoContent\<rparr>]
    \<and> results (handle lt st (Submit s l h y g)) = [length (cards st)]
    \<and> requests (handle lt st (Submit s l h y g)) = requests st @
        [\<lparr>endpoint = ''/generate'', http_method = ''POST'', content_type = ''application/json'',
          body = GenerateBody
            \<lparr>subject = s, currentLevel = l, timeAvailable = h, learningStyle = y,
             goal = g, maxSteps = JNum 1\<rparr> 0 []\<rparr>]
    \<and> requests (handle lt st (GenerateSettled rid outcome)) = requests st
    \<and> length (cards (handle lt st (GenerateSettled rid outcome))) = length (cards st)
    \<and> results (handle lt st (GenerateSettled rid outcome)) = results st"
proof -
  have one: "ui_maxSteps st = JNum 1"
    by (simp add: assms ui_maxSteps_run) (simp add: init_def initial_maxSteps_def)
  have inv: "runs_inv st"
    unfolding assms by (rule runs_inv_run [OF runs_inv_init])
  show ?thesis
    using one resume_single [OF inv one, of lt rid outcome]
    by (simp add: handleFormSubmit_def enter_step_def Let_def js_lt_def createStepCard_def
        generate_request_def API_GENERATE_def)
qed

theorem default_single_step_witness:
  "ui_maxSteps (init None) = JNum 1
   \<and> requests (handle engine_lt (init None) (Submit ''JavaScript'' ''beginner'' ''10'' ''visual'' ''closures''))
     = [\<lparr>endpoint = ''/generate'', http_method = ''POST'', content_type = ''application/json'',
         body = GenerateBody
           \<lparr>subject = ''JavaScript'', currentLevel = ''beginner'', timeAvailable = ''10'',
            learningStyle = ''visual'', goal = ''closures'', maxSteps = JNum 1\<rparr> 0 []\<rparr>]
   \<and> results (handle engine_lt (init None) (Submit ''JavaScript'' ''beginner'' ''10'' ''visual'' ''closures''))
     = [0]
   \<and> cards (handle engine_lt (init None) (Submit ''JavaScript'' ''beginner'' ''10'' ''visual'' ''closures''))
     = [\<lparr>data_step = 1, loading_bar = True, loading_text = True, step_content = NoContent\<rparr>]"
proof -
  have r: "init None = run_events engine_lt (init None) []"
    by (simp add: run_events_def)
  have e: "requests (init None) = []" "cards (init None) = []"
    by (simp_all add: init_def)
  show ?thesis
    using default_single_step [OF r, where s = "''JavaScript''" and l = "''beginner''" and h = "''10''"
        and y = "''visual''" and g = "''closures''"]
    by (simp add: e)
qed

lemma selection_recorded:
  "trim (sel_text sel) \<noteq> [] \<Longrightarrow> rangeCount sel \<noteq> 0 \<Longrightarrow> findStepCard (container sel) \<noteq> None \<Longrightarrow>
   handleSelectionChange sel st = st\<lparr>currentSelection := trim (sel_text sel)\<rparr>"
  by (auto simp: handleSelectionChange_def Let_def)

lemma update_shows_button:
  assumes "button_inv st" and "currentSelection st \<noteq> []" and "rangeCount sel \<noteq> 0"
    and "findStepCard (container sel) \<noteq> None" and "rect_width sel \<noteq> 0" and "rect_height sel \<noteq> 0"
  shows "\<exists>b. floatingButton (updateFloatingButtonPosition sel st) = Some b
    \<and> b \<in> set (body_buttons (updateFloatingButtonPosition sel st))
    \<and> b < length (buttons (updateFloatingButtonPosition sel st))
    \<and> display_block (buttons (updateFloatingButtonPosition sel st) ! b)
    \<and> 0 < click_handlers (buttons (updateFloatingButtonPosition sel st) ! b)"
proof (cases "floatingButton st")
  case None
  then show ?thesis using assms
    by (auto simp: updateFloatingButtonPosition_def createFloatingButton_def Let_def nth_append)
next
  case (Some b)
  with assms(1) have "b < length (buttons st)" by (simp add: button_inv_iff)
  then show ?thesis using assms Some
    by (auto simp: updateFloatingButtonPosition_def createFloatingButton_def Let_def nth_append)
qed

lemma explain_sends:
  assumes "currentSubject st \<noteq> []" and "currentSelection st \<noteq> []" and "\<not> isModalLoading st"
  shows "requests (handleExplanationRequest st) = requests st @ [details_request (currentSelection st) (currentSubject st)]"
    and "exp_pending (handleExplanationRequest st) = exp_pending st @ [length (requests st)]"
    and "modalTitle (handleExplanationRequest st) = currentSelection st"
    and "\<not> modal_hidden (handleExplanationRequest st)"
    and "isModalLoading (handleExplanationRequest st)"
  using assms by (simp_all add: handleExplanationRequest_def setModalLoading_def Let_def)

lemma click_runs_once:
  assumes "b \<in> set (body_buttons st)" and "b < length (buttons st)"
    and "0 < click_handlers (buttons st ! b)"
    and "currentSubject st \<noteq> []" and "currentSelection st \<noteq> []" and "\<not> isModalLoading st"
  shows "on_button_click b st =
    handleExplanationRequest (st\<lparr>buttons := (buttons st)[b := (buttons st ! b)\<lparr>click_handlers := 0\<rparr>]\<rparr>)"
proof -
  let ?s = "st\<lparr>buttons := (buttons st)[b := (buttons st ! b)\<lparr>click_handlers := 0\<rparr>]\<rparr>"
  from assms(3) obtain k where k: "click_handlers (buttons st ! b) = Suc k"
    by (cases "click_handlers (buttons st ! b)") simp_all
  have "isModalLoading (handleExplanationRequest ?s)"
    using assms(4-6) by (intro explain_sends) simp_all
  then have "(handleExplanationRequest ^^ k) (handleExplanationRequest ?s) = handleExplanationRequest ?s"
    by (rule explain_loading_funpow)
  then show ?thesis using assms(1,2)
    by (simp add: on_button_click_def Let_def k funpow_swap1)
qed

lemma explanation_success:
  "response_ok status \<Longrightarrow> explanation_result (Response status (Json err (Some text))) = Inr (Markdown text)"
  by (simp add: explanation_result_def marked_parse_def)

text \<open>The subject the selection handler holds is that of the last submission.\<close>

lemma subject_kept: "\<not> is_submit e \<Longrightarrow> currentSubject (handle lt st e) = currentSubject st"
  by (cases e) simp_all

lemma subject_kept_run:
  "\<forall>e \<in> set evs. \<not> is_submit e \<Longrightarrow> currentSubject (run_events lt st evs) = currentSubject st"
  unfolding run_events_def
  by (induction evs arbitrary: st) (simp_all add: subject_kept)

lemma run_events_append:
  "run_events lt st (xs @ ys) = run_events lt (run_events lt st xs) ys"
  by (simp add: run_events_def)

text \<open>A press and a release of the mouse on the tracked floating button change nothing.\<close>

lemma press_on_button:
  "floatingButton st = Some b \<Longrightarrow> run_events lt st [MouseDown (Some b), MouseUp (Some b) sel] = st"
  by (simp add: run_events_def on_mousedown_def on_mouseup_def button_contains_def Let_def)

lemma explain_click:
  assumes "st = run_events lt (init elem) evs"
    and "currentSubject st \<noteq> []" and "\<not> isModalLoading st"
    and "trim (sel_text sel) \<noteq> []" and "rangeCount sel \<noteq> 0"
    and "findStepCard (container sel) \<noteq> None"
    and "rect_width sel \<noteq> 0" and "rect_height sel \<noteq> 0"
    and "\<not> button_contains st target"
    and "st2 = run_events lt st [SelectionChange sel, MouseUp target sel]"
    and "floatingButton st2 = Some b"
    and "st3 = handle lt st2 (ButtonClick b)"
    and "response_ok status"
  shows "b \<in> set (body_buttons st2) \<and> display_block (buttons st2 ! b)
    \<and> \<not> modal_hidden st3 \<and> modalTitle st3 = trim (sel_text sel)
    \<and> requests st3 = requests st @ [details_request (trim (sel_text sel)) (currentSubject st)]
    \<and> exp_pending st3 = exp_pending st @ [length (requests st)]
    \<and> modalContent (handle lt st3 (DetailsSettled (length (requests st)) (Response status (Json err (Some reply)))))
        = Markdown reply"
proof -
  have inv: "button_inv st"
    unfolding assms(1) by (rule button_inv_run [OF button_inv_init])
  let ?s1 = "st\<lparr>currentSelection := trim (sel_text sel)\<rparr>"
  have s1: "handleSelectionChange sel st = ?s1"
    using assms(4-6) by (rule selection_recorded)
  have inv1: "button_inv ?s1" using inv by (simp add: button_inv_iff)
  have nc: "\<not> button_contains ?s1 target" using assms(9) by (simp add: button_contains_def)
  have st2: "st2 = updateFloatingButtonPosition sel ?s1"
    using assms(4) nc by (simp add: assms(10) run_events_def s1 on_mouseup_def)
  from update_shows_button [OF inv1 _ assms(5-8)] assms(4) assms(11)
  have b: "b \<in> set (body_buttons st2)" "b < length (buttons st2)" "display_block (buttons st2 ! b)"
    "0 < click_handlers (buttons st2 ! b)"
    unfolding st2 by auto
  have f2: "currentSubject st2 = currentSubject st" "currentSelection st2 = trim (sel_text sel)"
    "isModalLoading st2 = isModalLoading st" "requests st2 = requests st" "exp_pending st2 = exp_pending st"
    by (simp_all add: st2)
  let ?s2 = "st2\<lparr>buttons := (buttons st2)[b := (buttons st2 ! b)\<lparr>click_handlers := 0\<rparr>]\<rparr>"
  have st3: "st3 = handleExplanationRequest ?s2"
    using click_runs_once [OF b(1,2,4)] assms(2-4) by (simp add: assms(12) f2)
  have g: "currentSubject ?s2 \<noteq> []" "currentSelection ?s2 \<noteq> []" "\<not> isModalLoading ?s2"
    using assms(2-4) by (simp_all add: f2)
  note e = explain_sends [OF g]
  have pend: "length (requests st) \<in> set (exp_pending st3)"
    unfolding st3 e(2) by (simp add: f2)
  have "modalContent (handle lt st3 (DetailsSettled (length (requests st)) (Response status (Json err (Some reply)))))
        = Markdown reply"
    using details_settled_content [OF pend] by (simp add: explanation_success [OF assms(13)])
  then show ?thesis
    using b(1,3) e unfolding st3 [symmetric] by (simp add: f2)
qed

text \<open>C4, as the script has it: after a form was submitted with a subject that is not empty and
  no other form since, in a state where no explanation is loading, when the user selects
  text that is not blank inside a step card, releases the mouse outside the floating button,
  then presses and releases the mouse on the floating button and so clicks it, the button
  was attached and shown, the modal is opened with the trimmed selected text as its title,
  exactly one request is sent, a POST to \<^verbatim>\<open>/get_component_details\<close> whose JSON
  body holds that text as \<open>component\<close> and the submitted subject as \<open>subject\<close>, and an ok
  response with a response text puts the Markdown of that text into the modal content.\<close>

theorem explain_selected_text:
  assumes "st0 = run_events lt (init elem) evs0"
    and "st = run_events lt st0 (Submit s l h y g # evs1)"
    and "\<forall>e \<in> set evs1. \<not> is_submit e"
    and "s \<noteq> []" and "\<not> isModalLoading st"
    and "trim (sel_text sel) \<noteq> []" and "rangeCount sel \<noteq> 0"
    and "findStepCard (container sel) \<noteq> None"
    and "rect_width sel \<noteq> 0" and "rect_height sel \<noteq> 0"
    and "\<not> button_contains st target"
    and "st2 = run_events lt st [SelectionChange sel, MouseUp target sel]"
    and "floatingButton st2 = Some b"
    and "st3 = run_events lt st2 [MouseDown (Some b), MouseUp (Some b) sel2, ButtonClick b]"
    and "response_ok status"
  shows "b \<in> set (body_buttons st2) \<and> display_block (buttons st2 ! b)
    \<and> \<not> modal_hidden st3 \<and> modalTitle st3 = trim (sel_text sel)
    \<and> requests st3 = requests st @
        [\<lparr>endpoint = ''/get_component_details'', http_method = ''POST'',
          content_type = ''application/json'', body = DetailsBody (trim (sel_text sel)) s\<rparr>]
    \<and> exp_pending st3 = exp_pending st @ [length (requests st)]
    \<and> modalContent (handle lt st3 (DetailsSettled (length (requests st)) (Response status (Json err (Some reply)))))
        = Markdown reply"
proof -
  have reach: "st = run_events lt (init elem) (evs0 @ Submit s l h y g # evs1)"
    by (simp add: assms(1,2) run_events_append)
  have "currentSubject st = currentSubject (handle lt st0 (Submit s l h y g))"
    unfolding assms(2) by (simp add: run_events_def subject_kept_run [unfolded run_events_def, OF assms(3)])
  then have subj: "currentSubject st = s" by simp
  then have ne: "currentSubject st \<noteq> []" using assms(4) by simp
  have "run_events lt st2 [MouseDown (Some b), MouseUp (Some b) sel2, ButtonClick b]
      = run_events lt (run_events lt st2 [MouseDown (Some b), MouseUp (Some b) sel2]) [ButtonClick b]"
    by (simp add: run_events_def)
  also have "\<dots> = handle lt st2 (ButtonClick b)"
    unfolding press_on_button [OF assms(13)] by (simp add: run_events_def)
  finally have st3: "st3 = handle lt st2 (ButtonClick b)" by (simp add: assms(14))
  show ?thesis
    using explain_click [OF reach ne assms(5) assms(6) assms(7) assms(8) assms(9) assms(10)
        assms(11) assms(12) assms(13) st3 assms(15), where err = err and reply = reply]
    by (simp add: subj details_request_def)
qed

theorem explain_selected_text_witness:
  "floatingButton (run_events engine_lt
       (run_events engine_lt (run_events engine_lt (init None) [])
          [Submit ''JavaScript'' ''beginner'' ''10'' ''visual'' ''closures'',
           GenerateSettled 0 (ok_reply ''# Plan'')])
       [SelectionChange (selection_in_card '' closure ''), MouseUp None (selection_in_card '' closure '')])
     = Some 0
   \<and> modalTitle (run_events engine_lt (run_events engine_lt
       (run_events engine_lt (run_events engine_lt (init None) [])
          [Submit ''JavaScript'' ''beginner'' ''10'' ''visual'' ''closures'',
           GenerateSettled 0 (ok_reply ''# Plan'')])
       [SelectionChange (selection_in_card '' closure ''), MouseUp None (selection_in_card '' closure '')])
       [MouseDown (Some 0), MouseUp (Some 0) (selection_in_card '' closure ''), ButtonClick 0])
     = ''closure''
   \<and> requests (run_events engine_lt (run_events engine_lt
       (run_events engine_lt (run_events engine_lt (init None) [])
          [Submit ''JavaScript'' ''beginner'' ''10'' ''visual'' ''closures'',
           GenerateSettled 0 (ok_reply ''# Plan'')])
       [SelectionChange (selection_in_card '' closure ''), MouseUp None (selection_in_card '' closure '')])
       [MouseDown (Some 0), MouseUp (Some 0) (selection_in_card '' closure ''), ButtonClick 0])
     = requests (run_events engine_lt (run_events engine_lt (init None) [])
          [Submit ''JavaScript'' ''beginner'' ''10'' ''visual'' ''closures'',
           GenerateSettled 0 (ok_reply ''# Plan'')])
       @ [\<lparr>endpoint = ''/get_component_details'', http_method = ''POST'',
            content_type = ''application/json'', body = DetailsBody ''closure'' ''JavaScript''\<rparr>]
   \<and> modalContent (handle engine_lt (run_events engine_lt (run_events engine_lt
       (run_events engine_lt (run_events engine_lt (init None) [])
          [Submit ''JavaScript'' ''beginner'' ''10'' ''visual'' ''closures'',
           GenerateSettled 0 (ok_reply ''# Plan'')])
       [SelectionChange (selection_in_card '' closure ''), MouseUp None (selection_in_card '' closure '')])
       [MouseDown (Some 0), MouseUp (Some 0) (selection_in_card '' closure ''), ButtonClick 0])
       (DetailsSettled 1 (Response 200 (Json None (Some ''A closure is ...'')))))
     = Markdown ''A closure is ...''"
proof -
  let ?sel = "selection_in_card '' closure ''"
  let ?st0 = "run_events engine_lt (init None) []"
  let ?st = "run_events engine_lt ?st0
      [Submit ''JavaScript'' ''beginner'' ''10'' ''visual'' ''closures'',
       GenerateSettled 0 (ok_reply ''# Plan'')]"
  let ?st2 = "run_events engine_lt ?st [SelectionChange ?sel, MouseUp None ?sel]"
  have q: "\<forall>e \<in> set [GenerateSettled 0 (ok_reply ''# Plan'')]. \<not> is_submit e" by simp
  have s: "''JavaScript'' \<noteq> []" by simp
  have h: "\<not> isModalLoading ?st" "trim (sel_text ?sel) \<noteq> []"
    "rangeCount ?sel \<noteq> 0" "findStepCard (container ?sel) \<noteq> None"
    "rect_width ?sel \<noteq> 0" "rect_height ?sel \<noteq> 0" "\<not> button_contains ?st None"
    by code_simp+
  have b: "floatingButton ?st2 = Some 0" by code_simp
  have ok: "response_ok 200" by code_simp
  have t: "trim (sel_text ?sel) = ''closure''" by code_simp
  have n: "length (requests ?st) = 1" by code_simp
  show ?thesis
    using explain_selected_text [OF refl refl q s h refl b refl ok,
        where err = None and reply = "''A closure is ...''"] b
    unfolding t n by simp
qed

text \<open>C4 as stated fails while an explanation is loading: the user closes the modal, selects
  another word in the step card and clicks the floating button shown for it, and the click
  sends nothing and leaves the modal hidden, with the earlier word as its title.\<close>

theorem explain_click_counterexample:
  "floatingButton (run_events engine_lt (init None) busy_events) = Some 2
   \<and> currentSelection (run_events engine_lt (init None) busy_events) = ''promise''
   \<and> display_block (buttons (run_events engine_lt (init None) busy_events) ! 2)
   \<and> requests (run_events engine_lt (init None) (busy_events @ [ButtonClick 2]))
      = requests (run_events engine_lt (init None) busy_events)
   \<and> length (requests (run_events engine_lt (init None) (busy_events @ [ButtonClick 2]))) = 2
   \<and> modalTitle (run_events engine_lt (init None) (busy_events @ [ButtonClick 2])) = ''closure''
   \<and> modal_hidden (run_events engine_lt (init None) (busy_events @ [ButtonClick 2]))"
  by code_simp

subsection \<open>The clone of the floating button\<close>

text \<open>C8, the script at a selection in a step card followed by a mouse release: the call
  of \<^verbatim>\<open>updateFloatingButtonPosition\<close> leaves two floating-button elements attached
  to the body, the clone (element 1) put in the button's place by
  \<^verbatim>\<open>replaceWith\<close> and the button itself (element 0) appended again. A press of the
  mouse elsewhere removes the tracked button only: the clone stays attached.\<close>

theorem floating_button_clone_stays_attached:
  "body_buttons (run_events engine_lt (init None)
      [first_form, GenerateSettled 0 (ok_reply ''# Plan''),
       SelectionChange (selection_in_card ''closure''), MouseUp None (selection_in_card ''closure'')])
     = [1, 0]
   \<and> floatingButton (run_events engine_lt (init None)
      [first_form, GenerateSettled 0 (ok_reply ''# Plan''),
       SelectionChange (selection_in_card ''closure''), MouseUp None (selection_in_card ''closure'')])
     = Some 0
   \<and> body_buttons (run_events engine_lt (init None)
      [first_form, GenerateSettled 0 (ok_reply ''# Plan''),
       SelectionChange (selection_in_card ''closure''), MouseUp None (selection_in_card ''closure''),
       MouseDown None])
     = [1]
   \<and> floatingButton (run_events engine_lt (init None)
      [first_form, GenerateSettled 0 (ok_reply ''# Plan''),
       SelectionChange (selection_in_card ''closure''), MouseUp None (selection_in_card ''closure''),
       MouseDown None])
     = None"
  by code_simp
subsection \<open>A submission that no other submission overlaps\<close>

lemma success_result: "success_text oc = Some t \<Longrightarrow> generateStep_result oc = Inr (Some t)"
  by (auto simp: success_text_def generateStep_result_def
      split: fetch_outcome.splits json_body.splits if_splits)

lemma unsuccessful_result:
  "success_text oc = None \<Longrightarrow> (\<exists>msg. generateStep_result oc = Inl msg) \<or> generateStep_result oc = Inr None"
  by (auto simp: success_text_def generateStep_result_def
      split: fetch_outcome.splits json_body.splits if_splits)

lemma update_success:
  "updateStepCard c (Some t) =
     (c\<lparr>loading_bar := False, loading_text := False, step_content := Markdown t\<rparr>, None)"
  by (simp add: updateStepCard_def marked_parse_def)

lemma update_undefined:
  "updateStepCard c None = (c\<lparr>loading_bar := False, loading_text := False\<rparr>, Some marked_undefined)"
  by (simp add: updateStepCard_def marked_parse_def)

lemma rendered_explicit:
  "rendered n t = \<lparr>data_step = n, loading_bar = False, loading_text = False, step_content = Markdown t\<rparr>"
  by (simp add: rendered_def update_success createStepCard_def)

lemma rendered_eq: "fst (updateStepCard (createStepCard n) (Some t)) = rendered n t"
  by (simp add: rendered_def)

lemma resume_success:
  assumes "map_of (gen_pending st) rid = Some r" and "success_text oc = Some t"
  shows "handleFormSubmit_resume lt rid oc st =
     enter_step lt (run_form r) (Suc (run_step r))
       (st\<lparr>gen_pending := filter (\<lambda>p. fst p \<noteq> rid) (gen_pending st),
           cards := (cards st)[run_card r := fst (updateStepCard (cards st ! run_card r) (Some t))],
           previousResponses := previousResponses st @ [t]\<rparr>)"
  using assms(1) success_result [OF assms(2)]
  by (simp add: handleFormSubmit_resume_def Let_def update_success)

lemma resume_unsuccessful:
  assumes "map_of (gen_pending st) rid = Some r" and "success_text oc = None"
    and "cards st ! run_card r = createStepCard n"
  shows "handleFormSubmit_resume lt rid oc st =
     st\<lparr>gen_pending := filter (\<lambda>p. fst p \<noteq> rid) (gen_pending st),
        cards := (cards st)[run_card r := failed_card n oc]\<rparr>"
  using unsuccessful_result [OF assms(2)]
proof
  assume "\<exists>msg. generateStep_result oc = Inl msg"
  then obtain msg where "generateStep_result oc = Inl msg" ..
  then show ?thesis using assms(1,3)
    by (simp add: handleFormSubmit_resume_def Let_def failed_card_def)
next
  assume "generateStep_result oc = Inr None"
  then show ?thesis using assms(1,3)
    by (simp add: handleFormSubmit_resume_def Let_def failed_card_def update_undefined)
qed

lemma enter_yes:
  "js_lt lt k (maxSteps fd) \<Longrightarrow>
   enter_step lt fd k st =
     st\<lparr>cards := cards st @ [createStepCard (Suc k)],
        results := results st @ [length (cards st)],
        requests := requests st @ [generate_request fd k (previousResponses st)],
        gen_pending := gen_pending st @
          [(length (requests st), \<lparr>run_form = fd, run_step = k, run_card = length (cards st)\<rparr>)]\<rparr>"
  by (simp add: enter_step_def Let_def)

lemma enter_no: "\<not> js_lt lt k (maxSteps fd) \<Longrightarrow> enter_step lt fd k st = st"
  by (simp add: enter_step_def)

lemma generate_is_generate: "is_generate (generate_request fd k prev)"
  by (simp add: is_generate_def generate_request_def)

subsection \<open>The outcomes that reach a submission\<close>

lemma received_append:
  "received (D @ E) = (if length (received D) = length D then received D @ received E else received D)"
proof (induction D)
  case Nil
  then show ?case by simp
next
  case (Cons oc D)
  then show ?case by (cases "success_text oc") simp_all
qed

lemma received_length: "length (received D) \<le> length D"
proof (induction D)
  case Nil
  then show ?case by simp
next
  case (Cons oc D)
  then show ?case by (cases "success_text oc") simp_all
qed

lemma received_all:
  "list_all2 (\<lambda>oc t. success_text oc = Some t) D ts \<Longrightarrow> received D = ts"
  by (induction D ts rule: list_all2_induct) simp_all

lemma delivered_append:
  "delivered lt st (xs @ ys) = delivered lt st xs @ delivered lt (run_events lt st xs) ys"
  by (induction xs arbitrary: st) (simp_all add: run_events_def)

lemma explain_extra:
  "\<exists>extra. requests (handleExplanationRequest st) = requests st @ extra \<and> filter is_generate extra = []"
  by (simp add: handleExplanationRequest_def setModalLoading_def Let_def details_not_generate)

lemma explain_funpow_extra:
  "\<exists>extra. requests ((handleExplanationRequest ^^ n) st) = requests st @ extra \<and> filter is_generate extra = []"
proof (induction n)
  case 0
  then show ?case by simp
next
  case (Suc n)
  then obtain e1 where e1: "requests ((handleExplanationRequest ^^ n) st) = requests st @ e1"
    "filter is_generate e1 = []" by blast
  from explain_extra [of "(handleExplanationRequest ^^ n) st"] obtain e2
    where e2: "requests (handleExplanationRequest ((handleExplanationRequest ^^ n) st))
        = requests ((handleExplanationRequest ^^ n) st) @ e2" "filter is_generate e2 = []" by blast
  have "requests ((handleExplanationRequest ^^ Suc n) st) = requests st @ (e1 @ e2)"
    by (simp add: e1 e2)
  moreover have "filter is_generate (e1 @ e2) = []" by (simp add: e1 e2)
  ultimately show ?case by blast
qed

text \<open>An event that is no submission and settles no request a call is waiting for leaves
  the step cards, the results area, the collected responses and the suspended calls as they
  are, and sends nothing to \<^verbatim>\<open>/generate\<close>.\<close>

lemma other_event:
  assumes "\<not> is_submit e" and "delivered lt S [e] = []"
  shows "cards (handle lt S e) = cards S \<and> results (handle lt S e) = results S
    \<and> previousResponses (handle lt S e) = previousResponses S
    \<and> gen_pending (handle lt S e) = gen_pending S
    \<and> (\<exists>extra. requests (handle lt S e) = requests S @ extra \<and> filter is_generate extra = [])"
proof (cases e)
  case (GenerateSettled rid oc)
  with assms(2) have "map_of (gen_pending S) rid = None" by (simp split: if_splits)
  then show ?thesis using GenerateSettled by (simp add: handleFormSubmit_resume_def)
next
  case (ButtonClick b)
  show ?thesis
    using explain_funpow_extra [of _ "S\<lparr>buttons := bs\<rparr>" for bs] ButtonClick
    by (simp add: on_button_click_def Let_def)
qed (use assms in simp_all)

subsection \<open>Where a submission stands\<close>

lemma sub_state_iff:
  "sub_state st fd N D S \<longleftrightarrow>
     previousResponses S = received D
   \<and> length (received D) \<le> N \<and> length D \<le> Suc (length (received D))
   \<and> (length D = length (received D) \<or> length (received D) < N)
   \<and> cards S = cards st @ map (\<lambda>(i, t). rendered (Suc i) t) (enumerate 0 (received D))
       @ (if length (received D) < N
          then [if length D = length (received D) then createStepCard (Suc (length (received D)))
                else failed_card (Suc (length (received D))) (D ! length (received D))]
          else [])
   \<and> results S = [length (cards st) ..< length (cards st) + length (received D)]
       @ (if length (received D) < N then [length (cards st) + length (received D)] else [])
   \<and> filter is_generate (requests S) = filter is_generate (requests st)
       @ map (\<lambda>i. generate_request fd i (take i (received D))) [0..<length (received D)]
       @ (if length (received D) < N then [generate_request fd (length (received D)) (received D)] else [])
   \<and> (if length D = length (received D) \<and> length (received D) < N
      then map snd (gen_pending S) =
             [\<lparr>run_form = fd, run_step = length (received D),
               run_card = length (cards st) + length (received D)\<rparr>]
         \<and> list_all (\<lambda>q. fst q < length (requests S)
               \<and> requests S ! fst q = generate_request fd (length (received D)) (received D))
             (gen_pending S)
      else gen_pending S = [])"
  by (simp add: sub_state_def Let_def)

lemma sub_state_start:
  assumes "gen_pending st = []" and "\<And>k. js_lt lt k (ui_maxSteps st) \<longleftrightarrow> k < N"
    and "fd = \<lparr>subject = s, currentLevel = l, timeAvailable = h, learningStyle = y, goal = g,
               maxSteps = ui_maxSteps st\<rparr>"
  shows "sub_state st fd N [] (handle lt st (Submit s l h y g))"
proof (cases "0 < N")
  case True
  then have "js_lt lt 0 (maxSteps fd)" by (simp add: assms(2,3))
  then show ?thesis using True assms(1)
    by (simp add: sub_state_iff handleFormSubmit_def Let_def assms(3) [symmetric] enter_yes
        generate_is_generate)
next
  case False
  then have "\<not> js_lt lt 0 (maxSteps fd)" by (simp add: assms(2,3))
  then show ?thesis using False assms(1)
    by (simp add: sub_state_iff handleFormSubmit_def Let_def assms(3) [symmetric] enter_no)
qed

lemma sub_state_other:
  assumes "sub_state st fd N D S" and "\<not> is_submit e" and "delivered lt S [e] = []"
  shows "sub_state st fd N D (handle lt S e)"
proof -
  from other_event [OF assms(2,3)] obtain extra where
    same: "cards (handle lt S e) = cards S" "results (handle lt S e) = results S"
      "previousResponses (handle lt S e) = previousResponses S"
      "gen_pending (handle lt S e) = gen_pending S"
    and req: "requests (handle lt S e) = requests S @ extra" "filter is_generate extra = []"
    by blast
  show ?thesis
    using assms(1) by (auto simp: sub_state_iff same req nth_append)
qed

lemma sub_state_deliver:
  assumes I: "sub_state st fd N D S" and hit: "map_of (gen_pending S) rid = Some r"
    and bound: "\<And>k. js_lt lt k (maxSteps fd) \<longleftrightarrow> k < N"
  shows "sub_state st fd N (D @ [oc]) (handle lt S (GenerateSettled rid oc))"
proof -
  define p where "p = received D"
  define k where "k = length p"
  define c0 where "c0 = length (cards st)"
  define pre where "pre = cards st @ map (\<lambda>(i, t). rendered (Suc i) t) (enumerate 0 p)"
  define G where "G = filter is_generate (requests st) @ map (\<lambda>i. generate_request fd i (take i p)) [0..<k]"
  let ?run = "\<lparr>run_form = fd, run_step = k, run_card = c0 + k\<rparr>"
  from hit have "gen_pending S \<noteq> []" by auto
  with I have good: "length D = k" "k < N"
    by (auto simp: sub_state_iff p_def k_def split: if_splits)
  from I good have S: "previousResponses S = p" "cards S = pre @ [createStepCard (Suc k)]"
    "results S = [c0 ..< c0 + k] @ [c0 + k]"
    "filter is_generate (requests S) = G @ [generate_request fd k p]"
    "map snd (gen_pending S) = [?run]"
    by (simp_all add: sub_state_iff p_def k_def c0_def pre_def G_def)
  from S(5) obtain q where gp: "gen_pending S = [(q, ?run)]"
    by (cases "gen_pending S") auto
  with hit have r: "r = ?run" and rid: "rid = q" by (auto split: if_splits)
  have len_pre: "c0 + k = length pre" by (simp add: pre_def c0_def k_def)
  have D_len: "length (received D) = length D" using good(1) by (simp add: k_def p_def)
  define S' where "S' = handleFormSubmit_resume lt rid oc S"
  have "sub_state st fd N (D @ [oc]) S'"
  proof (cases "success_text oc")
    case (Some t)
    define upd where "upd = S\<lparr>gen_pending := filter (\<lambda>p. fst p \<noteq> rid) (gen_pending S),
           cards := (cards S)[run_card r := fst (updateStepCard (cards S ! run_card r) (Some t))],
           previousResponses := previousResponses S @ [t]\<rparr>"
    have next_state: "S' = enter_step lt fd (Suc k) upd"
      using resume_success [OF hit Some, of lt] by (simp add: S'_def upd_def r)
    have rec: "received (D @ [oc]) = p @ [t]"
      by (simp add: received_append D_len Some p_def)
    have "cards upd = pre @ [rendered (Suc k) t]"
      by (simp add: upd_def S r len_pre rendered_eq)
    then have U_cards: "cards upd = cards st @ map (\<lambda>(i, t). rendered (Suc i) t) (enumerate 0 (p @ [t]))"
      by (simp add: pre_def enumerate_append_eq k_def)
    have U_req: "filter is_generate (requests upd)
        = filter is_generate (requests st) @ map (\<lambda>i. generate_request fd i (take i (p @ [t]))) [0..<Suc k]"
      by (simp add: upd_def S(4) G_def k_def)
    have U: "previousResponses upd = p @ [t]" "results upd = [c0 ..< c0 + Suc k]" "gen_pending upd = []"
      by (simp_all add: upd_def S rid gp)
    have len: "length (p @ [t]) = Suc k" "length (D @ [oc]) = Suc k"
      using good(1) by (simp_all add: k_def)
    show ?thesis
    proof (cases "Suc k < N")
      case True
      then have "js_lt lt (Suc k) (maxSteps fd)" by (simp add: bound)
      from enter_yes [OF this, of upd]
      have E: "cards S' = cards upd @ [createStepCard (Suc (Suc k))]"
        "results S' = results upd @ [length (cards upd)]"
        "requests S' = requests upd @ [generate_request fd (Suc k) (previousResponses upd)]"
        "gen_pending S' = gen_pending upd @
           [(length (requests upd), \<lparr>run_form = fd, run_step = Suc k, run_card = length (cards upd)\<rparr>)]"
        "previousResponses S' = previousResponses upd"
        by (simp_all add: next_state)
      have lc: "length (cards upd) = c0 + Suc k"
        by (simp add: U_cards c0_def k_def)
      have lp: "length p = k" by (simp add: k_def)
      show ?thesis
        unfolding sub_state_iff rec len
        using True
        by (simp add: E U U_cards U_req lc lp generate_is_generate c0_def)
    next
      case False
      with good have kN: "Suc k = N" by simp
      from False have "\<not> js_lt lt (Suc k) (maxSteps fd)" by (simp add: bound)
      from enter_no [OF this, of upd] have E: "S' = upd" by (simp add: next_state)
      show ?thesis
        unfolding sub_state_iff rec len E
        using kN
        by (simp add: U U_cards U_req c0_def)
    qed
  next
    case None
    have card: "cards S ! run_card r = createStepCard (Suc k)"
      by (simp add: r S(2) len_pre)
    have E: "S' = S\<lparr>gen_pending := filter (\<lambda>p. fst p \<noteq> rid) (gen_pending S),
            cards := (cards S)[run_card r := failed_card (Suc k) oc]\<rparr>"
      using resume_unsuccessful [OF hit None card, of lt] by (simp add: S'_def)
    have rec: "received (D @ [oc]) = p"
      by (simp add: received_append D_len None p_def)
    have F: "cards S' = cards st @ map (\<lambda>(i, t). rendered (Suc i) t) (enumerate 0 p) @ [failed_card (Suc k) oc]"
      "gen_pending S' = []"
      "results S' = [c0 ..< c0 + k] @ [c0 + k]"
      "previousResponses S' = p"
      "filter is_generate (requests S') = filter is_generate (requests st)
          @ map (\<lambda>i. generate_request fd i (take i p)) [0..<k] @ [generate_request fd k p]"
      unfolding E by (simp_all add: S r rid gp len_pre) (simp_all add: pre_def G_def)
    have nth: "(D @ [oc]) ! k = oc" using good(1) by (simp add: nth_append)
    have len: "length (D @ [oc]) = Suc k" using good(1) by simp
    show ?thesis
      unfolding sub_state_iff rec len k_def [symmetric]
      using good(2) nth
      by (simp add: F c0_def)
  qed
  then show ?thesis by (simp add: S'_def)
qed

lemma submission_trace:
  assumes idle: "gen_pending st = []"
    and bound: "\<And>k. js_lt lt k (ui_maxSteps st) \<longleftrightarrow> k < N"
    and fd: "fd = \<lparr>subject = s, currentLevel = l, timeAvailable = h, learningStyle = y, goal = g,
               maxSteps = ui_maxSteps st\<rparr>"
    and quiet: "\<forall>e \<in> set evs. \<not> is_submit e"
  shows "sub_state st fd N (delivered lt (handle lt st (Submit s l h y g)) evs)
           (run_events lt (handle lt st (Submit s l h y g)) evs)"
  using quiet
proof (induction evs rule: rev_induct)
  case Nil
  show ?case using sub_state_start [OF idle bound fd] by (simp add: run_events_def)
next
  case (snoc e evs)
  let ?st1 = "handle lt st (Submit s l h y g)"
  let ?S = "run_events lt ?st1 evs"
  let ?D = "delivered lt ?st1 evs"
  from snoc have I: "sub_state st fd N ?D ?S" and e: "\<not> is_submit e" by simp_all
  have run: "run_events lt ?st1 (evs @ [e]) = handle lt ?S e"
    by (simp add: run_events_def)
  have del: "delivered lt ?st1 (evs @ [e]) = ?D @ delivered lt ?S [e]"
    by (rule delivered_append)
  have b: "js_lt lt k (maxSteps fd) \<longleftrightarrow> k < N" for k
    by (simp add: fd bound)
  show ?case
  proof (cases "delivered lt ?S [e] = []")
    case True
    from sub_state_other [OF I e True] show ?thesis
      unfolding run del True by simp
  next
    case False
    then obtain rid oc r where ev: "e = GenerateSettled rid oc"
      and hit: "map_of (gen_pending ?S) rid = Some r"
      by (cases e) (auto split: if_splits)
    then have one: "delivered lt ?S [e] = [oc]" by simp
    have d2: "delivered lt ?st1 (evs @ [e]) = ?D @ [oc]"
      unfolding del one ..
    have r2: "run_events lt ?st1 (evs @ [e]) = handle lt ?S (GenerateSettled rid oc)"
      unfolding run unfolding ev ..
    show ?thesis
      unfolding d2 r2 by (rule sub_state_deliver [OF I hit b])
  qed
qed

lemma visible_new:
  "map ((!) (xs @ ys)) [length xs ..< length xs + length ys] = ys"
  by (rule nth_equalityI) (simp_all add: nth_append)

lemma previous_append:
  "map_of (gen_pending st) rid = Some r \<Longrightarrow> success_text oc = Some t \<Longrightarrow>
   previousResponses (handleFormSubmit_resume lt rid oc st) = previousResponses st @ [t]"
  by (simp add: resume_success)

lemma previous_kept_resume:
  "take (length (previousResponses st)) (previousResponses (handleFormSubmit_resume lt rid oc st))
     = previousResponses st"
  by (simp add: handleFormSubmit_resume_def Let_def split: option.split sum.split prod.split)

lemma previous_kept:
  "\<not> is_submit e \<Longrightarrow>
   take (length (previousResponses st)) (previousResponses (handle lt st e)) = previousResponses st"
  by (cases e) (simp_all add: previous_kept_resume)

lemma pending_request:
  "map snd ps = [x] \<Longrightarrow> list_all (\<lambda>q. fst q < n \<and> rs ! fst q = r) ps \<Longrightarrow>
   map (\<lambda>q. rs ! fst q) ps = [r]"
  by (cases ps) auto

lemma generate_request_explicit:
  "generate_request fd k prev =
     \<lparr>endpoint = ''/generate'', http_method = ''POST'', content_type = ''application/json'',
      body = GenerateBody fd k prev\<rparr>"
  by (simp add: generate_request_def API_GENERATE_def)

lemma createStepCard_explicit:
  "createStepCard n = \<lparr>data_step = n, loading_bar = True, loading_text = True, step_content = NoContent\<rparr>"
  by (simp add: createStepCard_def)

lemma first_unsuccessful:
  "length (received D) < length D \<Longrightarrow> success_text (D ! length (received D)) = None"
  by (induction D) (simp_all split: option.splits)

lemma failed_card_explicit:
  assumes "success_text oc = None"
  shows "\<exists>msg lb. failed_card n oc =
     \<lparr>data_step = n, loading_bar = lb, loading_text = lb,
      step_content = RedDiv (''Error generating content: '' @ msg)\<rparr>"
  using unsuccessful_result [OF assms]
proof
  assume "\<exists>msg. generateStep_result oc = Inl msg"
  then obtain msg where "generateStep_result oc = Inl msg" ..
  then have "failed_card n oc =
     \<lparr>data_step = n, loading_bar = True, loading_text = True,
      step_content = RedDiv (''Error generating content: '' @ msg)\<rparr>"
    by (simp add: failed_card_def showError_def createStepCard_def)
  then show ?thesis by blast
next
  assume "generateStep_result oc = Inr None"
  then have "failed_card n oc =
     \<lparr>data_step = n, loading_bar = False, loading_text = False,
      step_content = RedDiv (''Error generating content: '' @ marked_undefined)\<rparr>"
    by (simp add: failed_card_def showError_def createStepCard_def update_undefined)
  then show ?thesis by blast
qed

text \<open>The trace of a submission in full.\<close>

lemma explicit_trace:
  assumes "gen_pending st = []"
    and "\<forall>k. js_lt lt k (ui_maxSteps st) \<longleftrightarrow> k < N"
    and "\<forall>e \<in> set evs. \<not> is_submit e"
    and "st1 = handle lt st (Submit s l h y g)"
    and "st' = run_events lt st1 evs"
    and "D = delivered lt st1 evs"
    and "texts = received D"
    and "fd = \<lparr>subject = s, currentLevel = l, timeAvailable = h, learningStyle = y, goal = g,
               maxSteps = ui_maxSteps st\<rparr>"
  shows "previousResponses st' = texts" and "length texts \<le> N" and "length D \<le> Suc (length texts)"
    and "\<exists>rest. cards st' = cards st
           @ map (\<lambda>(i, t). \<lparr>data_step = Suc i, loading_bar = False, loading_text = False,
                              step_content = Markdown t\<rparr>) (enumerate 0 texts)
           @ rest
         \<and> (if N \<le> length texts then rest = []
            else if length D = length texts
            then rest = [\<lparr>data_step = Suc (length texts), loading_bar = True, loading_text = True,
                          step_content = NoContent\<rparr>]
            else \<exists>msg lb. rest = [\<lparr>data_step = Suc (length texts), loading_bar = lb,
                   loading_text = lb,
                   step_content = RedDiv (''Error generating content: '' @ msg)\<rparr>])"
    and "results st' = [length (cards st) ..< length (cards st) + length texts]
           @ (if length texts < N then [length (cards st) + length texts] else [])"
    and "filter is_generate (requests st') = filter is_generate (requests st)
           @ map (\<lambda>i. generate_request fd i (take i texts)) [0..<length texts]
           @ (if length texts < N then [generate_request fd (length texts) texts] else [])"
    and "map snd (gen_pending st') =
           (if length D = length texts \<and> length texts < N
            then [\<lparr>run_form = fd, run_step = length texts, run_card = length (cards st) + length texts\<rparr>]
            else [])"
    and "map (\<lambda>q. requests st' ! fst q) (gen_pending st') =
           (if length D = length texts \<and> length texts < N
            then [generate_request fd (length texts) texts] else [])"
proof -
  have b: "\<And>k. js_lt lt k (ui_maxSteps st) \<longleftrightarrow> k < N" using assms(2) by simp
  have I: "sub_state st fd N D st'"
    unfolding assms(4,5,6) by (rule submission_trace [OF assms(1) b assms(8) assms(3)])
  note J = I [unfolded sub_state_iff assms(7) [symmetric]]
  show "previousResponses st' = texts" and "length texts \<le> N" and "length D \<le> Suc (length texts)"
    and "results st' = [length (cards st) ..< length (cards st) + length texts]
           @ (if length texts < N then [length (cards st) + length texts] else [])"
    and "filter is_generate (requests st') = filter is_generate (requests st)
           @ map (\<lambda>i. generate_request fd i (take i texts)) [0..<length texts]
           @ (if length texts < N then [generate_request fd (length texts) texts] else [])"
    using J by simp_all
  show "map snd (gen_pending st') =
           (if length D = length texts \<and> length texts < N
            then [\<lparr>run_form = fd, run_step = length texts, run_card = length (cards st) + length texts\<rparr>]
            else [])"
    using J by (simp split: if_splits)
  show "map (\<lambda>q. requests st' ! fst q) (gen_pending st') =
           (if length D = length texts \<and> length texts < N
            then [generate_request fd (length texts) texts] else [])"
    using J by (auto split: if_splits intro: pending_request)
  define rest where "rest = (if length texts < N
      then [if length D = length texts then createStepCard (Suc (length texts))
            else failed_card (Suc (length texts)) (D ! length texts)]
      else [])"
  from J [unfolded rendered_explicit] have c: "cards st' = cards st
      @ map (\<lambda>(i, t). \<lparr>data_step = Suc i, loading_bar = False, loading_text = False,
                         step_content = Markdown t\<rparr>) (enumerate 0 texts) @ rest"
    by (simp add: rest_def)
  have r: "if N \<le> length texts then rest = []
      else if length D = length texts
      then rest = [\<lparr>data_step = Suc (length texts), loading_bar = True, loading_text = True,
                    step_content = NoContent\<rparr>]
      else \<exists>msg lb. rest = [\<lparr>data_step = Suc (length texts), loading_bar = lb,
             loading_text = lb,
             step_content = RedDiv (''Error generating content: '' @ msg)\<rparr>]"
  proof (cases "length texts < N \<and> length D \<noteq> length texts")
    case True
    have "length (received D) \<le> length D" by (rule received_length)
    with True have "length (received D) < length D" by (simp add: assms(7))
    from first_unsuccessful [OF this]
    have "success_text (D ! length texts) = None" by (simp add: assms(7))
    from failed_card_explicit [OF this, of "Suc (length texts)"] True
    show ?thesis by (simp add: rest_def)
  next
    case False
    then show ?thesis by (auto simp: rest_def createStepCard_explicit)
  qed
  from c r show "\<exists>rest. cards st' = cards st
           @ map (\<lambda>(i, t). \<lparr>data_step = Suc i, loading_bar = False, loading_text = False,
                              step_content = Markdown t\<rparr>) (enumerate 0 texts)
           @ rest
         \<and> (if N \<le> length texts then rest = []
            else if length D = length texts
            then rest = [\<lparr>data_step = Suc (length texts), loading_bar = True, loading_text = True,
                          step_content = NoContent\<rparr>]
            else \<exists>msg lb. rest = [\<lparr>data_step = Suc (length texts), loading_bar = lb,
                   loading_text = lb,
                   step_content = RedDiv (''Error generating content: '' @ msg)\<rparr>])"
    by blast
qed

text \<open>C1, as the script has it: a form is submitted while no other submission is in
  flight, on a page whose bound is \<open>N\<close>, and any events other than a submission follow
  (settled requests, selections, mouse events, explanations, in any order). Let \<open>D\<close> be the
  outcomes that have reached the submission and \<open>texts\<close> the responses of its first
  successful steps. Then the steps were taken in order from 0, a step after a success only:
  at most \<open>N\<close> steps succeeded and at most one outcome more has arrived; the cards are those
  before the submission, then for each successful step \<open>i\<close> the card numbered \<open>i + 1\<close>
  without indicators and with the Markdown of its response, then the card of the step after
  them if there is one, still loading when its outcome is awaited and showing the error when
  it failed; the results area holds exactly the cards of this submission; the requests sent
  to \<^verbatim>\<open>/generate\<close> since the submission are, in order, one POST per step with
  the form data, the step index and the responses of the steps before; and at most one call
  is suspended, awaiting the request of the step after the last success.\<close>

theorem submission_steps_in_order:
  assumes "gen_pending st = []"
    and "\<forall>k. js_lt lt k (ui_maxSteps st) \<longleftrightarrow> k < N"
    and "\<forall>e \<in> set evs. \<not> is_submit e"
    and "st1 = handle lt st (Submit s l h y g)"
    and "st' = run_events lt st1 evs"
    and "D = delivered lt st1 evs"
    and "texts = received D"
    and "fd = \<lparr>subject = s, currentLevel = l, timeAvailable = h, learningStyle = y, goal = g,
               maxSteps = ui_maxSteps st\<rparr>"
  shows "length texts \<le> N \<and> length D \<le> Suc (length texts)
    \<and> (\<exists>rest. cards st' = cards st
           @ map (\<lambda>(i, t). \<lparr>data_step = Suc i, loading_bar = False, loading_text = False,
                              step_content = Markdown t\<rparr>) (enumerate 0 texts)
           @ rest
         \<and> (if N \<le> length texts then rest = []
            else if length D = length texts
            then rest = [\<lparr>data_step = Suc (length texts), loading_bar = True, loading_text = True,
                          step_content = NoContent\<rparr>]
            else \<exists>msg lb. rest = [\<lparr>data_step = Suc (length texts), loading_bar = lb,
                   loading_text = lb,
                   step_content = RedDiv (''Error generating content: '' @ msg)\<rparr>]))
    \<and> results st' = [length (cards st) ..< length (cards st) + length texts]
        @ (if length texts < N then [length (cards st) + length texts] else [])
    \<and> filter is_generate (requests st') = filter is_generate (requests st)
        @ map (\<lambda>i. \<lparr>endpoint = ''/generate'', http_method = ''POST'',
                      content_type = ''application/json'',
                      body = GenerateBody fd i (take i texts)\<rparr>) [0..<length texts]
        @ (if length texts < N
           then [\<lparr>endpoint = ''/generate'', http_method = ''POST'',
                   content_type = ''application/json'',
                   body = GenerateBody fd (length texts) texts\<rparr>]
           else [])
    \<and> map snd (gen_pending st') =
        (if length D = length texts \<and> length texts < N
         then [\<lparr>run_form = fd, run_step = length texts, run_card = length (cards st) + length texts\<rparr>]
         else [])
    \<and> map (\<lambda>q. requests st' ! fst q) (gen_pending st') =
        (if length D = length texts \<and> length texts < N
         then [\<lparr>endpoint = ''/generate'', http_method = ''POST'',
                 content_type = ''application/json'',
                 body = GenerateBody fd (length texts) texts\<rparr>]
         else [])"
proof -
  note T = explicit_trace [OF assms]
  show ?thesis
    using T(2,3,5) T(6-8) [unfolded generate_request_explicit]
    by (intro conjI T(4)) simp_all
qed

text \<open>C2, as the script has it: for a form submitted while no other submission is in flight
  and followed by any events other than a submission, \<^verbatim>\<open>previousResponses\<close>
  holds exactly the responses of the steps that have succeeded, in step order; the request in
  flight carries the step index and that array; the request sent for step \<open>i\<close> carried the
  responses of the steps 0 to \<open>i - 1\<close>; in any state a successful step appends its response
  at the end; and no event other than a submission changes or removes the entries that are
  there.\<close>

theorem previous_responses_in_step_order:
  assumes "gen_pending st = []"
    and "\<forall>k. js_lt lt k (ui_maxSteps st) \<longleftrightarrow> k < N"
    and "\<forall>e \<in> set evs. \<not> is_submit e"
    and "st1 = handle lt st (Submit s l h y g)"
    and "st' = run_events lt st1 evs"
    and "D = delivered lt st1 evs"
    and "texts = received D"
    and "fd = \<lparr>subject = s, currentLevel = l, timeAvailable = h, learningStyle = y, goal = g,
               maxSteps = ui_maxSteps st\<rparr>"
  shows "previousResponses st' = texts
    \<and> map (\<lambda>q. body (requests st' ! fst q)) (gen_pending st') =
        (if length D = length texts \<and> length texts < N
         then [GenerateBody fd (length texts) (previousResponses st')] else [])
    \<and> map body (drop (length (filter is_generate (requests st))) (filter is_generate (requests st'))) =
        map (\<lambda>i. GenerateBody fd i (take i texts))
          [0..<(if length texts < N then Suc (length texts) else length texts)]
    \<and> (map_of (gen_pending s0) rid = Some r \<and> success_text oc = Some t \<longrightarrow>
         previousResponses (handle lt s0 (GenerateSettled rid oc)) = previousResponses s0 @ [t])
    \<and> (\<not> is_submit e \<longrightarrow>
         take (length (previousResponses s0)) (previousResponses (handle lt s0 e)) = previousResponses s0)"
proof -
  note T = explicit_trace [OF assms]
  have "map (\<lambda>q. body (requests st' ! fst q)) (gen_pending st')
      = map body (map (\<lambda>q. requests st' ! fst q) (gen_pending st'))"
    by simp
  also have "\<dots> = (if length D = length texts \<and> length texts < N
      then [GenerateBody fd (length texts) texts] else [])"
    unfolding T(8) by (simp add: generate_request_explicit)
  finally have pend: "map (\<lambda>q. body (requests st' ! fst q)) (gen_pending st')
      = (if length D = length texts \<and> length texts < N
         then [GenerateBody fd (length texts) (previousResponses st')] else [])"
    by (simp add: T(1))
  have sent: "map body (drop (length (filter is_generate (requests st))) (filter is_generate (requests st')))
      = map (\<lambda>i. GenerateBody fd i (take i texts))
          [0..<(if length texts < N then Suc (length texts) else length texts)]"
    unfolding T(6) by (simp add: generate_request_explicit comp_def)
  show ?thesis
    using T(1) pend sent by (simp add: previous_append previous_kept)
qed

text \<open>C6, as the script has it: every form submission starts by emptying
  \<^verbatim>\<open>previousResponses\<close> and the results area, which then holds at most the card of
  its first step. When the same form is submitted in two states of a page in neither of which
  a submission is in flight, whatever cards, responses and requests the two states hold, and
  the same outcomes reach the two submissions among any other events, then the collected
  responses, the cards shown in the results area and the requests sent to
  \<^verbatim>\<open>/generate\<close> are the same in both, the collected responses are those of this
  submission, and the results area holds no card that was there before it.\<close>

theorem submission_starts_fresh:
  assumes "gen_pending a = []" and "gen_pending b = []"
    and "ui_maxSteps a = ui_maxSteps b"
    and "\<forall>k. js_lt lt k (ui_maxSteps a) \<longleftrightarrow> k < N"
    and "\<forall>e \<in> set evs_a. \<not> is_submit e" and "\<forall>e \<in> set evs_b. \<not> is_submit e"
    and "a1 = handle lt a (Submit s l h y g)" and "b1 = handle lt b (Submit s l h y g)"
    and "delivered lt a1 evs_a = delivered lt b1 evs_b"
    and "a' = run_events lt a1 evs_a" and "b' = run_events lt b1 evs_b"
  shows "previousResponses (handle lt st (Submit s l h y g)) = []
    \<and> set (results (handle lt st (Submit s l h y g))) \<subseteq> {length (cards st)}
    \<and> previousResponses a' = received (delivered lt a1 evs_a)
    \<and> (\<forall>c \<in> set (results a'). length (cards a) \<le> c)
    \<and> previousResponses a' = previousResponses b'
    \<and> map ((!) (cards a')) (results a') = map ((!) (cards b')) (results b')
    \<and> drop (length (filter is_generate (requests a))) (filter is_generate (requests a'))
        = drop (length (filter is_generate (requests b))) (filter is_generate (requests b'))"
proof -
  define fd where "fd = \<lparr>subject = s, currentLevel = l, timeAvailable = h, learningStyle = y,
      goal = g, maxSteps = ui_maxSteps a\<rparr>"
  define D where "D = delivered lt a1 evs_a"
  define p where "p = received D"
  have ba: "\<And>k. js_lt lt k (ui_maxSteps a) \<longleftrightarrow> k < N" using assms(4) by simp
  have bb: "\<And>k. js_lt lt k (ui_maxSteps b) \<longleftrightarrow> k < N" using assms(3,4) by simp
  have fdb: "fd = \<lparr>subject = s, currentLevel = l, timeAvailable = h, learningStyle = y,
      goal = g, maxSteps = ui_maxSteps b\<rparr>" by (simp add: fd_def assms(3))
  have A: "sub_state a fd N D a'"
    unfolding D_def assms(7,10) by (rule submission_trace [OF assms(1) ba fd_def assms(5)])
  have B: "sub_state b fd N D b'"
    unfolding D_def assms(9) unfolding assms(8,11)
    by (rule submission_trace [OF assms(2) bb fdb assms(6)])
  define new where "new = map (\<lambda>(i, t). rendered (Suc i) t) (enumerate 0 p)
       @ (if length p < N
          then [if length D = length p then createStepCard (Suc (length p))
                else failed_card (Suc (length p)) (D ! length p)]
          else [])"
  define sent where "sent = map (\<lambda>i. generate_request fd i (take i p)) [0..<length p]
       @ (if length p < N then [generate_request fd (length p) p] else [])"
  have ln: "length new = (if length p < N then Suc (length p) else length p)"
    by (simp add: new_def)
  from A have A': "previousResponses a' = p" "cards a' = cards a @ new"
    "results a' = [length (cards a) ..< length (cards a) + length new]"
    "filter is_generate (requests a') = filter is_generate (requests a) @ sent"
    by (simp_all add: sub_state_iff p_def new_def sent_def)
  from B have B': "previousResponses b' = p" "cards b' = cards b @ new"
    "results b' = [length (cards b) ..< length (cards b) + length new]"
    "filter is_generate (requests b') = filter is_generate (requests b) @ sent"
    by (simp_all add: sub_state_iff p_def new_def sent_def)
  have va: "map ((!) (cards a')) (results a') = new"
    unfolding A' by (rule visible_new)
  have vb: "map ((!) (cards b')) (results b') = new"
    unfolding B' by (rule visible_new)
  have fresh: "previousResponses (handle lt st (Submit s l h y g)) = []
    \<and> set (results (handle lt st (Submit s l h y g))) \<subseteq> {length (cards st)}"
    by (simp add: handleFormSubmit_def enter_step_def Let_def)
  have own: "\<forall>c \<in> set (results a'). length (cards a) \<le> c"
    by (simp add: A'(3))
  show ?thesis
    using fresh own va vb by (simp add: A'(1,4) B'(1,4) p_def D_def)
qed

lemma two_steps: "js_lt engine_lt k (ui_maxSteps (init (Some ''2''))) \<longleftrightarrow> k < 2"
proof -
  have "string_to_number ''2'' = Finite 2" by code_simp
  then show ?thesis
    by (simp add: init_def initial_maxSteps_def js_lt_def engine_lt_def)
qed

lemma three_steps: "js_lt engine_lt k (ui_maxSteps (init (Some ''3''))) \<longleftrightarrow> k < 3"
proof -
  have "string_to_number ''3'' = Finite 3" by code_simp
  then show ?thesis
    by (simp add: init_def initial_maxSteps_def js_lt_def engine_lt_def)
qed

lemma interleaved_quiet: "\<forall>e \<in> set interleaved_events. \<not> is_submit e"
  by (simp add: interleaved_events_def)

lemma interleaved_delivered:
  "delivered engine_lt
     (handle engine_lt (init (Some ''3''))
        (Submit ''JavaScript'' ''beginner'' ''10'' ''visual'' ''closures''))
     interleaved_events
   = [ok_reply ''# Basics'', ok_reply ''## More'']"
  by code_simp

lemma two_successes:
  "received [ok_reply ''# Basics'', ok_reply ''## More''] = [''# Basics'', ''## More'']"
  by (simp add: success_text_def ok_reply_def response_ok_def)

text \<open>A submission on a page with three steps, two of which have succeeded, with an
  explanation asked for in between.\<close>

theorem submission_steps_in_order_witness:
  "map endpoint (requests (run_events engine_lt
       (handle engine_lt (init (Some ''3''))
          (Submit ''JavaScript'' ''beginner'' ''10'' ''visual'' ''closures''))
       interleaved_events))
     = [''/generate'', ''/generate'', ''/get_component_details'', ''/generate'']
   \<and> filter is_generate (requests (run_events engine_lt
       (handle engine_lt (init (Some ''3''))
          (Submit ''JavaScript'' ''beginner'' ''10'' ''visual'' ''closures''))
       interleaved_events))
     = [\<lparr>endpoint = ''/generate'', http_method = ''POST'', content_type = ''application/json'',
         body = GenerateBody \<lparr>subject = ''JavaScript'', currentLevel = ''beginner'',
           timeAvailable = ''10'', learningStyle = ''visual'', goal = ''closures'',
           maxSteps = JStr ''3''\<rparr> 0 []\<rparr>,
        \<lparr>endpoint = ''/generate'', http_method = ''POST'', content_type = ''application/json'',
         body = GenerateBody \<lparr>subject = ''JavaScript'', currentLevel = ''beginner'',
           timeAvailable = ''10'', learningStyle = ''visual'', goal = ''closures'',
           maxSteps = JStr ''3''\<rparr> 1 [''# Basics'']\<rparr>,
        \<lparr>endpoint = ''/generate'', http_method = ''POST'', content_type = ''application/json'',
         body = GenerateBody \<lparr>subject = ''JavaScript'', currentLevel = ''beginner'',
           timeAvailable = ''10'', learningStyle = ''visual'', goal = ''closures'',
           maxSteps = JStr ''3''\<rparr> 2 [''# Basics'', ''## More'']\<rparr>]
   \<and> cards (run_events engine_lt
       (handle engine_lt (init (Some ''3''))
          (Submit ''JavaScript'' ''beginner'' ''10'' ''visual'' ''closures''))
       interleaved_events)
     = [\<lparr>data_step = 1, loading_bar = False, loading_text = False, step_content = Markdown ''# Basics''\<rparr>,
        \<lparr>data_step = 2, loading_bar = False, loading_text = False, step_content = Markdown ''## More''\<rparr>,
        \<lparr>data_step = 3, loading_bar = True, loading_text = True, step_content = NoContent\<rparr>]
   \<and> results (run_events engine_lt
       (handle engine_lt (init (Some ''3''))
          (Submit ''JavaScript'' ''beginner'' ''10'' ''visual'' ''closures''))
       interleaved_events) = [0, 1, 2]
   \<and> map fst (gen_pending (run_events engine_lt
       (handle engine_lt (init (Some ''3''))
          (Submit ''JavaScript'' ''beginner'' ''10'' ''visual'' ''closures''))
       interleaved_events)) = [3]"
proof -
  let ?st = "init (Some ''3'')"
  let ?st1 = "handle engine_lt ?st (Submit ''JavaScript'' ''beginner'' ''10'' ''visual'' ''closures'')"
  let ?st' = "run_events engine_lt ?st1 interleaved_events"
  have idle: "gen_pending ?st = []" by (simp add: init_def)
  have b: "\<forall>k. js_lt engine_lt k (ui_maxSteps ?st) \<longleftrightarrow> k < 3"
    by (simp add: three_steps)
  have d: "[ok_reply ''# Basics'', ok_reply ''## More''] = delivered engine_lt ?st1 interleaved_events"
    unfolding interleaved_delivered ..
  have t: "[''# Basics'', ''## More''] = received [ok_reply ''# Basics'', ok_reply ''## More'']"
    by (rule two_successes [symmetric])
  have m: "ui_maxSteps ?st = JStr ''3''" "requests ?st = []" "cards ?st = []"
    by (simp_all add: init_def initial_maxSteps_def)
  have ends: "map endpoint (requests ?st')
      = [''/generate'', ''/generate'', ''/get_component_details'', ''/generate'']"
    by code_simp
  have pend: "map fst (gen_pending ?st') = [3]" by code_simp
  have up: "[0..<2] = [0, Suc 0]" "[0..<3] = [0, Suc 0, 2]"
    by (simp_all add: upt_rec)
  show ?thesis
    using submission_steps_in_order [OF idle b interleaved_quiet refl refl d t refl] ends pend
    by (simp add: m up enumerate_eq_zip numeral_2_eq_2 numeral_3_eq_3)
qed

text \<open>C1 as stated fails on two counts. A second submission made while the first is in
  flight puts two requests in flight at once; and a submission with bound 2 whose first
  step fails has sent the request of step 0 only and is over.\<close>

theorem steps_in_order_counterexample:
  "map fst (gen_pending (run_events engine_lt (init (Some ''2'')) [first_form, second_form])) = [0, 1]
   \<and> requests (run_events engine_lt (init (Some ''2''))
        [first_form, GenerateSettled 0 (Rejected ''Failed to fetch'')])
      = [\<lparr>endpoint = ''/generate'', http_method = ''POST'', content_type = ''application/json'',
          body = GenerateBody \<lparr>subject = ''JavaScript'', currentLevel = ''beginner'',
            timeAvailable = ''10'', learningStyle = ''visual'', goal = ''closures'',
            maxSteps = JStr ''2''\<rparr> 0 []\<rparr>]
   \<and> gen_pending (run_events engine_lt (init (Some ''2''))
        [first_form, GenerateSettled 0 (Rejected ''Failed to fetch'')]) = []"
  by code_simp

theorem previous_responses_in_step_order_witness:
  "previousResponses (run_events engine_lt
       (handle engine_lt (init (Some ''3''))
          (Submit ''JavaScript'' ''beginner'' ''10'' ''visual'' ''closures''))
       interleaved_events) = [''# Basics'', ''## More'']
   \<and> map (\<lambda>q. body (requests (run_events engine_lt
       (handle engine_lt (init (Some ''3''))
          (Submit ''JavaScript'' ''beginner'' ''10'' ''visual'' ''closures''))
       interleaved_events) ! fst q))
       (gen_pending (run_events engine_lt
       (handle engine_lt (init (Some ''3''))
          (Submit ''JavaScript'' ''beginner'' ''10'' ''visual'' ''closures''))
       interleaved_events))
     = [GenerateBody \<lparr>subject = ''JavaScript'', currentLevel = ''beginner'',
           timeAvailable = ''10'', learningStyle = ''visual'', goal = ''closures'',
           maxSteps = JStr ''3''\<rparr> 2 [''# Basics'', ''## More'']]
   \<and> map_of (gen_pending (run_events engine_lt
       (handle engine_lt (init (Some ''3''))
          (Submit ''JavaScript'' ''beginner'' ''10'' ''visual'' ''closures''))
       interleaved_events)) 3
     = Some \<lparr>run_form = \<lparr>subject = ''JavaScript'', currentLevel = ''beginner'',
           timeAvailable = ''10'', learningStyle = ''visual'', goal = ''closures'',
           maxSteps = JStr ''3''\<rparr>, run_step = 2, run_card = 2\<rparr>
   \<and> previousResponses (handle engine_lt (run_events engine_lt
       (handle engine_lt (init (Some ''3''))
          (Submit ''JavaScript'' ''beginner'' ''10'' ''visual'' ''closures''))
       interleaved_events) (GenerateSettled 3 (ok_reply ''### End'')))
     = [''# Basics'', ''## More'', ''### End'']"
proof -
  let ?st = "init (Some ''3'')"
  let ?st1 = "handle engine_lt ?st (Submit ''JavaScript'' ''beginner'' ''10'' ''visual'' ''closures'')"
  let ?st' = "run_events engine_lt ?st1 interleaved_events"
  let ?r = "\<lparr>run_form = \<lparr>subject = ''JavaScript'', currentLevel = ''beginner'',
           timeAvailable = ''10'', learningStyle = ''visual'', goal = ''closures'',
           maxSteps = JStr ''3''\<rparr>, run_step = 2, run_card = 2\<rparr>"
  have idle: "gen_pending ?st = []" by (simp add: init_def)
  have b: "\<forall>k. js_lt engine_lt k (ui_maxSteps ?st) \<longleftrightarrow> k < 3"
    by (simp add: three_steps)
  have d: "[ok_reply ''# Basics'', ok_reply ''## More''] = delivered engine_lt ?st1 interleaved_events"
    unfolding interleaved_delivered ..
  have t: "[''# Basics'', ''## More''] = received [ok_reply ''# Basics'', ok_reply ''## More'']"
    by (rule two_successes [symmetric])
  have m: "ui_maxSteps ?st = JStr ''3''"
    by (simp add: init_def initial_maxSteps_def)
  have look: "map_of (gen_pending ?st') 3 = Some ?r" by code_simp
  have more: "success_text (ok_reply ''### End'') = Some ''### End''" by code_simp
  have ev: "\<not> is_submit (GenerateSettled 3 (ok_reply ''### End''))" by simp
  show ?thesis
    using previous_responses_in_step_order [OF idle b interleaved_quiet refl refl d t refl,
        where ?s0.0 = ?st' and rid = 3 and r = ?r and oc = "ok_reply ''### End''" and t = "''### End''"
          and e = "GenerateSettled 3 (ok_reply ''### End'')"]
      look more ev
    by (simp add: m)
qed

text \<open>C2 as stated fails when submissions overlap: the second form is submitted while step 0
  of the first is in flight, the response \<open>a0\<close> of the first and then \<open>b0\<close> of the second
  arrive, and the request for step 1 of the second submission carries both, not its own
  step 0 alone. And a submission made while another is in flight empties the array under
  it.\<close>

theorem previous_responses_counterexample:
  "requests (run_events engine_lt (init (Some ''2''))
      [first_form, second_form, GenerateSettled 0 (ok_reply ''a0''), GenerateSettled 1 (ok_reply ''b0'')]) ! 3
     = \<lparr>endpoint = ''/generate'', http_method = ''POST'', content_type = ''application/json'',
        body = GenerateBody \<lparr>subject = ''Python'', currentLevel = ''advanced'', timeAvailable = ''5'',
          learningStyle = ''reading'', goal = ''decorators'', maxSteps = JStr ''2''\<rparr> 1 [''a0'', ''b0'']\<rparr>
   \<and> previousResponses (run_events engine_lt (init (Some ''2''))
      [first_form, GenerateSettled 0 (ok_reply ''a0''), second_form]) = []
   \<and> map fst (gen_pending (run_events engine_lt (init (Some ''2''))
      [first_form, GenerateSettled 0 (ok_reply ''a0''), second_form])) = [1, 2]"
  by code_simp

theorem submission_starts_fresh_witness:
  "gen_pending (run_events engine_lt (init (Some ''2'')) earlier_events) = []
   \<and> results (run_events engine_lt (init (Some ''2'')) earlier_events) = [0]
   \<and> delivered engine_lt
        (handle engine_lt (run_events engine_lt (init (Some ''2'')) earlier_events)
           (Submit ''JavaScript'' ''beginner'' ''10'' ''visual'' ''closures''))
        [MouseDown None, GenerateSettled 1 (ok_reply ''# Basics''),
         GenerateSettled 2 (Response 500 (Json (Some ''quota exceeded'') None))]
      = [ok_reply ''# Basics'', Response 500 (Json (Some ''quota exceeded'') None)]
   \<and> previousResponses (run_events engine_lt
        (handle engine_lt (run_events engine_lt (init (Some ''2'')) earlier_events)
           (Submit ''JavaScript'' ''beginner'' ''10'' ''visual'' ''closures''))
        [MouseDown None, GenerateSettled 1 (ok_reply ''# Basics''),
         GenerateSettled 2 (Response 500 (Json (Some ''quota exceeded'') None))])
      = [''# Basics'']
   \<and> map ((!) (cards (run_events engine_lt
        (handle engine_lt (run_events engine_lt (init (Some ''2'')) earlier_events)
           (Submit ''JavaScript'' ''beginner'' ''10'' ''visual'' ''closures''))
        [MouseDown None, GenerateSettled 1 (ok_reply ''# Basics''),
         GenerateSettled 2 (Response 500 (Json (Some ''quota exceeded'') None))])))
      (results (run_events engine_lt
        (handle engine_lt (run_events engine_lt (init (Some ''2'')) earlier_events)
           (Submit ''JavaScript'' ''beginner'' ''10'' ''visual'' ''closures''))
        [MouseDown None, GenerateSettled 1 (ok_reply ''# Basics''),
         GenerateSettled 2 (Response 500 (Json (Some ''quota exceeded'') None))]))
      = [\<lparr>data_step = 1, loading_bar = False, loading_text = False, step_content = Markdown ''# Basics''\<rparr>,
         \<lparr>data_step = 2, loading_bar = True, loading_text = True,
           step_content = RedDiv ''Error generating content: quota exceeded''\<rparr>]"
proof -
  let ?a = "init (Some ''2'')"
  let ?b = "run_events engine_lt (init (Some ''2'')) earlier_events"
  let ?bad = "Response 500 (Json (Some ''quota exceeded'') None)"
  let ?evs_a = "[GenerateSettled 0 (ok_reply ''# Basics''), ModalClose, GenerateSettled 1 ?bad]"
  let ?evs_b = "[MouseDown None, GenerateSettled 1 (ok_reply ''# Basics''), GenerateSettled 2 ?bad]"
  let ?a1 = "handle engine_lt ?a (Submit ''JavaScript'' ''beginner'' ''10'' ''visual'' ''closures'')"
  let ?b1 = "handle engine_lt ?b (Submit ''JavaScript'' ''beginner'' ''10'' ''visual'' ''closures'')"
  have ia: "gen_pending ?a = []" by (simp add: init_def)
  have ib: "gen_pending ?b = []" by code_simp
  have rb: "results ?b = [0]" by code_simp
  have same: "ui_maxSteps ?a = ui_maxSteps ?b" by (simp add: ui_maxSteps_run)
  have b: "\<forall>k. js_lt engine_lt k (ui_maxSteps ?a) \<longleftrightarrow> k < 2"
    by (simp add: two_steps)
  have qa: "\<forall>e \<in> set ?evs_a. \<not> is_submit e" and qb: "\<forall>e \<in> set ?evs_b. \<not> is_submit e"
    by simp_all
  have da: "delivered engine_lt ?a1 ?evs_a = [ok_reply ''# Basics'', ?bad]" by code_simp
  have db: "delivered engine_lt ?b1 ?evs_b = [ok_reply ''# Basics'', ?bad]" by code_simp
  have rec: "received [ok_reply ''# Basics'', ?bad] = [''# Basics'']" by code_simp
  have va: "map ((!) (cards (run_events engine_lt ?a1 ?evs_a))) (results (run_events engine_lt ?a1 ?evs_a))
      = [\<lparr>data_step = 1, loading_bar = False, loading_text = False, step_content = Markdown ''# Basics''\<rparr>,
         \<lparr>data_step = 2, loading_bar = True, loading_text = True,
           step_content = RedDiv ''Error generating content: quota exceeded''\<rparr>]"
    by code_simp
  note T = submission_starts_fresh [OF ia ib same b qa qb refl refl da [unfolded db [symmetric]] refl refl,
      where st = ?b]
  note T3 = T [THEN conjunct2, THEN conjunct2, THEN conjunct1, unfolded da rec]
  note T5 = T [THEN conjunct2, THEN conjunct2, THEN conjunct2, THEN conjunct2, THEN conjunct1]
  note T6 = T [THEN conjunct2, THEN conjunct2, THEN conjunct2, THEN conjunct2, THEN conjunct2,
      THEN conjunct1]
  have pb: "previousResponses (run_events engine_lt ?b1 ?evs_b) = [''# Basics'']"
    using T5 [symmetric] T3 by (rule trans)
  have vb: "map ((!) (cards (run_events engine_lt ?b1 ?evs_b))) (results (run_events engine_lt ?b1 ?evs_b))
      = [\<lparr>data_step = 1, loading_bar = False, loading_text = False, step_content = Markdown ''# Basics''\<rparr>,
         \<lparr>data_step = 2, loading_bar = True, loading_text = True,
           step_content = RedDiv ''Error generating content: quota exceeded''\<rparr>]"
    using T6 [symmetric] va by (rule trans)
  show ?thesis
    by (intro conjI ib rb db pb vb)
qed

text \<open>C6 as stated fails when submissions overlap: the second form is submitted while step 0
  of the first is in flight; when the response \<open>a0\<close> of the first arrives, the first
  submission appends its card of step 2 to the results area of the second and its response
  to the array the second has just emptied.\<close>

theorem submission_fresh_counterexample:
  "results (run_events engine_lt (init (Some ''2''))
      [first_form, second_form, GenerateSettled 0 (ok_reply ''a0'')]) = [1, 2]
   \<and> previousResponses (run_events engine_lt (init (Some ''2''))
      [first_form, second_form, GenerateSettled 0 (ok_reply ''a0'')]) = [''a0'']
   \<and> map (\<lambda>p. (subject (run_form (snd p)), run_step (snd p), run_card (snd p)))
       (gen_pending (run_events engine_lt (init (Some ''2''))
          [first_form, second_form, GenerateSettled 0 (ok_reply ''a0'')]))
     = [(''Python'', 0, 1), (''JavaScript'', 1, 2)]"
  by code_simp

end
